theory Spec2Isabelle
  imports Main "HOL-Library.Monad_Syntax"
begin

section \<open>Record types of \<open>libhockey/crashes.py\<close>\<close>

text \<open>
  The classes of the module are plain attribute containers filled by the decoder.
  Python \<open>int\<close> is \<open>int\<close>, \<open>str\<close> is \<open>string\<close>, \<open>Optional[str]\<close> is
  \<open>string option\<close> with \<open>None\<close> for Python's \<open>None\<close>. Several classes use the same
  attribute names; a selector is written with its record's name wherever it is ambiguous.
\<close>

record HockeyCrashGroup =
  "identifier" :: int
  app_id :: int
  created_at :: string
  updated_at :: string
  status :: int
  reason :: "string option"
  last_crash_at :: string
  exception_type :: "string option"
  fixed :: bool
  app_version_id :: int
  bundle_version :: string
  bundle_short_version :: string
  number_of_crashes :: int
  grouping_hash :: string
  grouping_type :: int
  pattern :: "string option"
  crash_method :: "string option"
  crash_file :: "string option"
  crash_class :: "string option"
  crash_line :: "string option"

record HockeyCrashGroupsResponse =
  crash_reasons :: "HockeyCrashGroup list"
  status :: string
  current_page :: int
  per_page :: int
  total_entries :: int
  total_pages :: int

record HockeyCrashInstance =
  "identifier" :: int
  app_id :: int
  crash_reason_id :: int
  created_at :: string
  updated_at :: string
  oem :: string
  model :: string
  os_version :: string
  jail_break :: bool
  contact_string :: string
  user_string :: string
  has_log :: bool
  has_description :: bool
  app_version_id :: int
  bundle_version :: string
  bundle_short_version :: string

record HockeyCrashesResponse =
  crash_reason :: HockeyCrashGroup
  crashes :: "HockeyCrashInstance list"
  status :: string
  current_page :: int
  per_page :: int
  total_entries :: int
  total_pages :: int

section \<open>Equality and hashing of crash groups\<close>

text \<open>
  \<open>str(x)\<close> on an \<open>Optional[str]\<close> attribute: the string itself, and the four
  characters \<open>None\<close> for \<open>None\<close>.
\<close>

fun py_str :: "string option \<Rightarrow> string" where
  "py_str None = ''None''"
| "py_str (Some s) = s"

text \<open>\<open>sep.join(parts)\<close> of Python's \<open>str\<close>.\<close>

fun py_join :: "string \<Rightarrow> string list \<Rightarrow> string" where
  "py_join sep [] = []"
| "py_join sep [x] = x"
| "py_join sep (x # y # ys) = x @ sep @ py_join sep (y # ys)"

text \<open>The list \<open>properties\<close> of \<open>__hash__\<close>, in the order of the source.\<close>

definition properties :: "HockeyCrashGroup \<Rightarrow> string option list" where
  "properties self =
     [ exception_type self,
       reason self,
       crash_method self,
       crash_file self,
       crash_class self ]"

definition joined_properties :: "HockeyCrashGroup \<Rightarrow> string" where
  "joined_properties self = py_join ''-'' (map py_str (properties self))"

text \<open>
  \<open>HockeyCrashGroup.__hash__\<close>. The builtin \<open>hash\<close> of the interpreter is not part
  of the repository: it is the parameter \<open>py_hash\<close>, any function from strings to
  integers (within one process equal strings hash equal, and nothing more is known).
\<close>

definition HockeyCrashGroup_hash :: "(string \<Rightarrow> int) \<Rightarrow> HockeyCrashGroup \<Rightarrow> int" where
  "HockeyCrashGroup_hash py_hash self = py_hash (joined_properties self)"

text \<open>
  The argument \<open>other: object\<close> of \<open>__eq__\<close> is any Python value. The values that
  matter to \<open>isinstance(other, HockeyCrashGroup)\<close> are the crash groups; the others are
  kept apart by constructor.
\<close>

datatype py_object =
    PyNone
  | PyBool bool
  | PyInt int
  | PyStr string
  | PyCrashGroup HockeyCrashGroup
  | PyCrashInstance HockeyCrashInstance


text \<open>\<open>HockeyCrashGroup.__eq__\<close>.\<close>

fun HockeyCrashGroup_eq :: "(string \<Rightarrow> int) \<Rightarrow> HockeyCrashGroup \<Rightarrow> py_object \<Rightarrow> bool" where
  "HockeyCrashGroup_eq py_hash self (PyCrashGroup other) =
     (HockeyCrashGroup_hash py_hash self = HockeyCrashGroup_hash py_hash other)"
| "HockeyCrashGroup_eq py_hash self other = False"

text \<open>
  Two crash groups whose joined signatures cannot be mistaken for one another: in no
  signature attribute does one hold \<open>None\<close> where the other holds the string \<open>None\<close>,
  and none of the four attributes that are followed by a hyphen in the joined string holds
  a hyphen itself (the last one, \<open>crash_class\<close>, may).
\<close>

definition none_confused :: "string option \<Rightarrow> string option \<Rightarrow> bool" where
  "none_confused p q = ((p = None \<and> q = Some ''None'') \<or> (p = Some ''None'' \<and> q = None))"

definition clear_signatures :: "HockeyCrashGroup \<Rightarrow> HockeyCrashGroup \<Rightarrow> bool" where
  "clear_signatures g1 g2 =
     (list_all (\<lambda>(p, q). \<not> none_confused p q) (zip (properties g1) (properties g2)) \<and>
      list_all (\<lambda>p. CHR ''-'' \<notin> set (py_str p)) (butlast (properties g1)) \<and>
      list_all (\<lambda>p. CHR ''-'' \<notin> set (py_str p)) (butlast (properties g2)))"

section \<open>The HTTP collaborator and the paged resources\<close>

text \<open>\<open>str(n)\<close> for an integer, as an f-string renders it: decimal digits, a minus sign first.\<close>

definition digit_char :: "nat \<Rightarrow> char" where
  "digit_char d = char_of (48 + d)"

fun py_str_nat :: "nat \<Rightarrow> string" where
  "py_str_nat n = (if n < 10 then [digit_char n] else py_str_nat (n div 10) @ [digit_char (n mod 10)])"

declare py_str_nat.simps [simp del]

definition py_str_int :: "int \<Rightarrow> string" where
  "py_str_int i = (if i < 0 then CHR ''-'' # py_str_nat (nat (- i)) else py_str_nat (nat i))"

text \<open>
  What the module takes from outside: \<open>libhockey.constants.API_BASE_URL\<close>, the method
  \<open>get(url, retry_count)\<close> inherited from \<open>HockeyDerivedClient\<close>, and the decoding
  \<open>deserialize.deserialize(T, response.json())\<close> for the two envelope classes. None of them
  is in the module, so each is a field of the client; an exception they raise is the \<open>Inl\<close> of
  their result, of an arbitrary type \<open>'e\<close>. A response body is of an arbitrary type \<open>'r\<close>.
  The server is a function of the URL: a run asks for pages of growing number, so for no URL
  twice, and two runs that are compared are runs against the same server.

  The interpreter is outside the module as well. Each page is walked by a generator of its
  own, made and delegated to (\<open>yield from\<close>) by the generator of the page before, so a
  pull resumes one frame per page walked so far, and the interpreter raises
  \<open>RecursionError\<close> when that is more than its recursion limit leaves room for.
  \<open>recursion_budget\<close> is the number of nested generators of this module that fit: the
  limit (1000 unless it was changed) less the frames of the caller and of what a body calls.
\<close>

record ('e, 'r) client =
  api_base_url :: string
  get :: "string \<Rightarrow> nat \<Rightarrow> 'e + 'r"
  deserialize_groups :: "'r \<Rightarrow> 'e + HockeyCrashGroupsResponse"
  deserialize_crashes :: "'r \<Rightarrow> 'e + HockeyCrashesResponse"
  recursion_budget :: nat

text \<open>
  What a caller of the module can see raised: the \<open>RecursionError\<close> of the interpreter,
  or an exception of \<open>get\<close> or of the decoding, passed on as it is.
\<close>

datatype 'e py_exception =
    RecursionError
  | Collaborator 'e

text \<open>
  The network is the only effect the claims are about. The state passed along is the list of
  the calls of \<open>get\<close> made so far, each with its URL and its retry count, oldest first. The
  two \<open>log.info\<close> lines of \<open>generate_groups_for_version\<close> change nothing a caller sees
  and are left out.
\<close>

type_synonym request = "string \<times> nat"

definition client_get ::
  "('e, 'r) client \<Rightarrow> string \<Rightarrow> nat \<Rightarrow> request list \<Rightarrow> ('e + 'r) \<times> request list" where
  "client_get c url retry_count log = (get c url retry_count, log @ [(url, retry_count)])"

text \<open>
  The two generator functions have the same body up to the URL they build and the envelope
  they decode. A paged resource holds these two parts, with the arguments of the call
  already bound: the URL of a page, and the decoding of a body into the page's items and its
  \<open>total_pages\<close> (the only two attributes of the envelope the body reads).
\<close>

record ('e, 'r, 'a) paged_resource =
  request_url :: "int \<Rightarrow> string"
  deserialize :: "'r \<Rightarrow> 'e + 'a list \<times> int"

text \<open>Lines 169 to 180 of \<open>generate_groups_for_version\<close>, for the arguments \<open>app_id\<close>
  (here \<open>app\<close>) and \<open>app_version_id\<close> (here \<open>ver\<close>).\<close>

definition generate_groups_for_version ::
  "('e, 'r) client \<Rightarrow> string \<Rightarrow> int \<Rightarrow> ('e, 'r, HockeyCrashGroup) paged_resource" where
  "generate_groups_for_version c app ver =
     \<lparr> request_url = (\<lambda>page.
         (api_base_url c @ ''/'' @ app @ ''/app_versions/'' @ py_str_int ver @ ''/'') @
         (''crash_reasons?per_page=100&order=desc&page='' @ py_str_int page)),
       deserialize = (\<lambda>response.
         case deserialize_groups c response of
           Inl e \<Rightarrow> Inl e
         | Inr crash_reasons_response \<Rightarrow>
             Inr (crash_reasons crash_reasons_response,
                  HockeyCrashGroupsResponse.total_pages crash_reasons_response)) \<rparr>"

text \<open>Lines 224 to 230 of \<open>generate_in_group\<close>, with \<open>crash_group_id\<close> (here \<open>grp\<close>).\<close>

definition generate_in_group ::
  "('e, 'r) client \<Rightarrow> string \<Rightarrow> int \<Rightarrow> int \<Rightarrow> ('e, 'r, HockeyCrashInstance) paged_resource" where
  "generate_in_group c app ver grp =
     \<lparr> request_url = (\<lambda>page.
         (api_base_url c @ ''/'' @ app @ ''/app_versions/'' @ py_str_int ver @ ''/crash_reasons/'') @
         (py_str_int grp @ ''?per_page=100&order=desc&page='' @ py_str_int page)),
       deserialize = (\<lambda>response.
         case deserialize_crashes c response of
           Inl e \<Rightarrow> Inl e
         | Inr crashes_response \<Rightarrow>
             Inr (crashes crashes_response,
                  HockeyCrashesResponse.total_pages crashes_response)) \<rparr>"

section \<open>The generators\<close>

text \<open>
  A generator object is a paged resource together with the place where its body is
  suspended:
  \<^item> \<open>Enter depth page\<close>: the body for \<open>page\<close> has not run yet, and \<open>depth\<close>
    generators of the pages before are suspended in their \<open>yield from\<close> around it;
    \<open>Start page\<close> is the generator a caller has just made, with none around it;
  \<^item> \<open>Yielding depth items tot page\<close>: inside the \<open>for\<close> loop of \<open>page\<close>, with
    \<open>items\<close> still to yield and \<open>tot\<close> the \<open>total_pages\<close> of that page's envelope;
  \<^item> \<open>Finished\<close>: the body has returned or raised.
  Nothing follows \<open>yield from\<close> in the body, and a suspended generator holds nothing that
  is read again: when the innermost generator ends or raises, so do all those around it.
  Of the stack of generators the model therefore keeps the innermost one and the number of
  the others, which is what counts against the recursion limit.
\<close>

datatype 'a frame =
    Enter nat int
  | Yielding nat "'a list" int int
  | Finished

abbreviation Start :: "int \<Rightarrow> 'a frame" where
  "Start page \<equiv> Enter 0 page"

datatype ('e, 'a) signal =
    Yield 'a
  | StopIteration
  | Raise "'e py_exception"

text \<open>
  \<open>next(generator)\<close>: run the body to its next \<open>yield\<close>, its end or an exception. A
  generator that does not fit under the recursion limit raises \<open>RecursionError\<close>; which
  call of its body meets the limit depends on what is outside the module, and the model
  lets none of the body run, so its page is not asked for. The result is an option, with
  \<open>None\<close> for a call that does not return; that every call returns is proved below
  (\<open>gen_next_returns\<close>).
\<close>

partial_function (option) gen_next ::
  "('e, 'r) client \<Rightarrow> ('e, 'r, 'a) paged_resource \<Rightarrow> 'a frame \<Rightarrow> request list
     \<Rightarrow> (('e, 'a) signal \<times> 'a frame \<times> request list) option" where
  "gen_next c R fr log =
     (case fr of
        Enter depth page \<Rightarrow>
          if depth \<ge> recursion_budget c then Some (Raise RecursionError, Finished, log)
          else
            (case client_get c (request_url R page) 3 log of
               (Inl e, log') \<Rightarrow> Some (Raise (Collaborator e), Finished, log')
             | (Inr response, log') \<Rightarrow>
                 (case deserialize R response of
                    Inl e \<Rightarrow> Some (Raise (Collaborator e), Finished, log')
                  | Inr (items, tot) \<Rightarrow> gen_next c R (Yielding depth items tot page) log'))
      | Yielding depth items tot page \<Rightarrow>
          (case items of
             x # rest \<Rightarrow> Some (Yield x, Yielding depth rest tot page, log)
           | [] \<Rightarrow>
               if tot > page then gen_next c R (Enter (depth + 1) (page + 1)) log
               else Some (StopIteration, Finished, log))
      | Finished \<Rightarrow> Some (StopIteration, Finished, log))"

text \<open>
  \<open>list(generator)\<close>: pull until \<open>StopIteration\<close>; an exception of the generator leaves
  \<open>list\<close> as it is, and no list is returned.
\<close>

partial_function (option) py_list_from ::
  "('e, 'r) client \<Rightarrow> ('e, 'r, 'a) paged_resource \<Rightarrow> 'a list \<Rightarrow> 'a frame \<Rightarrow> request list
     \<Rightarrow> (('e py_exception + 'a list) \<times> request list) option" where
  "py_list_from c R acc fr log =
     (case gen_next c R fr log of
        None \<Rightarrow> None
      | Some (Yield x, fr', log') \<Rightarrow> py_list_from c R (acc @ [x]) fr' log'
      | Some (StopIteration, fr', log') \<Rightarrow> Some (Inr acc, log')
      | Some (Raise e, fr', log') \<Rightarrow> Some (Inl e, log'))"

definition py_list ::
  "('e, 'r) client \<Rightarrow> ('e, 'r, 'a) paged_resource \<Rightarrow> 'a frame \<Rightarrow> request list
     \<Rightarrow> (('e py_exception + 'a list) \<times> request list) option" where
  "py_list c R fr log = py_list_from c R [] fr log"

text \<open>
  The \<open>for\<close> loop of \<open>groups_for_version\<close>: append, then test \<open>max_count\<close>, then pull
  again. \<open>break\<close> leaves the generator suspended; it is never resumed.
\<close>

partial_function (option) groups_for_version_loop ::
  "('e, 'r) client \<Rightarrow> ('e, 'r, 'a) paged_resource \<Rightarrow> int option \<Rightarrow> 'a list \<Rightarrow> 'a frame
     \<Rightarrow> request list \<Rightarrow> (('e py_exception + 'a list) \<times> request list) option" where
  "groups_for_version_loop c R max_count groups fr log =
     (case gen_next c R fr log of
        None \<Rightarrow> None
      | Some (Raise e, fr', log') \<Rightarrow> Some (Inl e, log')
      | Some (StopIteration, fr', log') \<Rightarrow> Some (Inr groups, log')
      | Some (Yield g, fr', log') \<Rightarrow>
          (case max_count of
             None \<Rightarrow> groups_for_version_loop c R max_count (groups @ [g]) fr' log'
           | Some m \<Rightarrow>
               if int (length (groups @ [g])) \<ge> m then Some (Inr (groups @ [g]), log')
               else groups_for_version_loop c R max_count (groups @ [g]) fr' log'))"

definition groups_for_version ::
  "('e, 'r) client \<Rightarrow> string \<Rightarrow> int \<Rightarrow> int option \<Rightarrow> request list
     \<Rightarrow> (('e py_exception + HockeyCrashGroup list) \<times> request list) option" where
  "groups_for_version c app ver max_count log =
     groups_for_version_loop c (generate_groups_for_version c app ver) max_count [] (Start 1) log"

definition in_group ::
  "('e, 'r) client \<Rightarrow> string \<Rightarrow> int \<Rightarrow> int \<Rightarrow> request list
     \<Rightarrow> (('e py_exception + HockeyCrashInstance list) \<times> request list) option" where
  "in_group c app ver grp log = py_list c (generate_in_group c app ver grp) (Start 1) log"

section \<open>What a server answers, and what a consumer sees\<close>

text \<open>
  The definitions of this section are used to state properties; the source has no
  counterpart for them. \<open>page_result\<close> is what fetching and decoding one page gives:
  the error of \<open>get\<close>, the error of the decoding, or the items and \<open>total_pages\<close> of
  the page.
\<close>

definition page_result ::
  "('e, 'r) client \<Rightarrow> ('e, 'r, 'a) paged_resource \<Rightarrow> int \<Rightarrow> 'e + 'a list \<times> int" where
  "page_result c R page =
     (case get c (request_url R page) 3 of
        Inl e \<Rightarrow> Inl e
      | Inr response \<Rightarrow> deserialize R response)"

definition page_items :: "('e, 'r) client \<Rightarrow> ('e, 'r, 'a) paged_resource \<Rightarrow> int \<Rightarrow> 'a list" where
  "page_items c R page = (case page_result c R page of Inl e \<Rightarrow> [] | Inr (items, tot) \<Rightarrow> items)"

text \<open>
  The same for each of the two collections, with the envelope as the decoder gives it:
  what the server answers for a page of crash groups and for a page of crash instances, and
  the items that the answers for a range of pages hold.
\<close>

definition groups_response_at ::
  "('e, 'r) client \<Rightarrow> string \<Rightarrow> int \<Rightarrow> int \<Rightarrow> 'e + HockeyCrashGroupsResponse" where
  "groups_response_at c app ver page =
     (case get c (request_url (generate_groups_for_version c app ver) page) 3 of
        Inl e \<Rightarrow> Inl e
      | Inr response \<Rightarrow> deserialize_groups c response)"

definition crashes_response_at ::
  "('e, 'r) client \<Rightarrow> string \<Rightarrow> int \<Rightarrow> int \<Rightarrow> int \<Rightarrow> 'e + HockeyCrashesResponse" where
  "crashes_response_at c app ver grp page =
     (case get c (request_url (generate_in_group c app ver grp) page) 3 of
        Inl e \<Rightarrow> Inl e
      | Inr response \<Rightarrow> deserialize_crashes c response)"

definition groups_on_pages ::
  "('e, 'r) client \<Rightarrow> string \<Rightarrow> int \<Rightarrow> int \<Rightarrow> int \<Rightarrow> HockeyCrashGroup list" where
  "groups_on_pages c app ver p q =
     concat (map (\<lambda>page. case groups_response_at c app ver page of
                            Inl e \<Rightarrow> []
                          | Inr r \<Rightarrow> crash_reasons r) [p..q])"

definition crashes_on_pages ::
  "('e, 'r) client \<Rightarrow> string \<Rightarrow> int \<Rightarrow> int \<Rightarrow> int \<Rightarrow> int \<Rightarrow> HockeyCrashInstance list" where
  "crashes_on_pages c app ver grp p q =
     concat (map (\<lambda>page. case crashes_response_at c app ver grp page of
                            Inl e \<Rightarrow> []
                          | Inr r \<Rightarrow> crashes r) [p..q])"

text \<open>A page that answers and announces a later page; a page after which the body ends.\<close>

definition continuing_page :: "('e, 'r) client \<Rightarrow> ('e, 'r, 'a) paged_resource \<Rightarrow> int \<Rightarrow> bool" where
  "continuing_page c R page =
     (case page_result c R page of Inl e \<Rightarrow> False | Inr (items, tot) \<Rightarrow> tot > page)"

definition final_page :: "('e, 'r) client \<Rightarrow> ('e, 'r, 'a) paged_resource \<Rightarrow> int \<Rightarrow> bool" where
  "final_page c R page =
     (case page_result c R page of Inl e \<Rightarrow> True | Inr (items, tot) \<Rightarrow> \<not> tot > page)"

definition final_signal ::
  "('e, 'r) client \<Rightarrow> ('e, 'r, 'a) paged_resource \<Rightarrow> int \<Rightarrow> ('e, 'a) signal" where
  "final_signal c R page =
     (case page_result c R page of
        Inl e \<Rightarrow> Raise (Collaborator e)
      | Inr (items, tot) \<Rightarrow> StopIteration)"

definition items_of_pages ::
  "('e, 'r) client \<Rightarrow> ('e, 'r, 'a) paged_resource \<Rightarrow> int \<Rightarrow> int \<Rightarrow> 'a list" where
  "items_of_pages c R p q = concat (map (page_items c R) [p..q])"

definition requests_of_pages :: "('e, 'r, 'a) paged_resource \<Rightarrow> int \<Rightarrow> int \<Rightarrow> request list" where
  "requests_of_pages R p q = map (\<lambda>page. (request_url R page, 3)) [p..q]"

text \<open>
  The lazy form seen from its consumer: the signals of the first \<open>n\<close> calls of
  \<open>next\<close>, with the generator and the calls of \<open>get\<close> they leave behind.
\<close>

fun pulls ::
  "('e, 'r) client \<Rightarrow> ('e, 'r, 'a) paged_resource \<Rightarrow> nat \<Rightarrow> 'a frame \<Rightarrow> request list
     \<Rightarrow> (('e, 'a) signal list \<times> 'a frame \<times> request list) option" where
  "pulls c R 0 fr log = Some ([], fr, log)"
| "pulls c R (Suc n) fr log =
     (case gen_next c R fr log of
        None \<Rightarrow> None
      | Some (s, fr', log') \<Rightarrow>
          (case pulls c R n fr' log' of
             None \<Rightarrow> None
           | Some (ss, fr'', log'') \<Rightarrow> Some (s # ss, fr'', log'')))"

text \<open>
  The first \<open>n\<close> items of the lazy sequence, as a consumer takes them that pulls one item
  at a time and stops pulling once it holds \<open>n\<close> (all the items when the sequence ends
  before). This is the reading of "the first k items of the lazy form's sequence" that the
  eager form with \<open>max_count\<close> is compared with.
\<close>

fun take_items ::
  "('e, 'r) client \<Rightarrow> ('e, 'r, 'a) paged_resource \<Rightarrow> nat \<Rightarrow> 'a frame \<Rightarrow> request list
     \<Rightarrow> (('e py_exception + 'a list) \<times> request list) option" where
  "take_items c R 0 fr log = Some (Inr [], log)"
| "take_items c R (Suc n) fr log =
     (case gen_next c R fr log of
        None \<Rightarrow> None
      | Some (Raise e, fr', log') \<Rightarrow> Some (Inl e, log')
      | Some (StopIteration, fr', log') \<Rightarrow> Some (Inr [], log')
      | Some (Yield x, fr', log') \<Rightarrow>
          (case take_items c R n fr' log' of
             None \<Rightarrow> None
           | Some (Inl e, log'') \<Rightarrow> Some (Inl e, log'')
           | Some (Inr xs, log'') \<Rightarrow> Some (Inr (x # xs), log'')))"

definition prepend ::
  "'a list \<Rightarrow> ('e + 'a list) \<times> request list \<Rightarrow> ('e + 'a list) \<times> request list" where
  "prepend acc r = (case r of (Inl e, log) \<Rightarrow> (Inl e, log) | (Inr xs, log) \<Rightarrow> (Inr (acc @ xs), log))"

text \<open>
  What bounds the steps of one call of \<open>next\<close>, for a recursion budget \<open>B\<close>: two steps
  for each generator that still fits.
\<close>

fun frame_measure :: "nat \<Rightarrow> 'a frame \<Rightarrow> nat" where
  "frame_measure B (Enter d p) = (if d < B then 2 * (B - d) + 1 else 0)"
| "frame_measure B (Yielding d xs tot p) = (if d < B then 2 * (B - d) else 1)"
| "frame_measure B Finished = 0"

text \<open>The page a suspended generator asks for, should it ask for one.\<close>

fun next_page :: "'a frame \<Rightarrow> int" where
  "next_page (Enter depth page) = page"
| "next_page (Yielding depth items tot page) = page + 1"
| "next_page Finished = 0"

section \<open>Equality of crash groups among all values\<close>

text \<open>
  \<open>__eq__\<close> takes any object, and the attributes of the class are annotations only: an
  instance that did not come from the decoder may lack them or hold anything in them. What
  the two methods ask of the interpreter is \<open>isinstance(v, HockeyCrashGroup)\<close>, the
  attribute access \<open>v.name\<close>, and the builtins \<open>str\<close> and \<open>hash\<close>. These are the
  fields of an interpreter, over an arbitrary type \<open>'v\<close> of values and an arbitrary type
  \<open>'x\<close> of exceptions, so that a statement for every interpreter is a statement for every
  object.
\<close>

record ('v, 'x) interpreter =
  isinstance_group :: "'v \<Rightarrow> bool"
  getattr :: "'v \<Rightarrow> string \<Rightarrow> 'x + 'v"
  builtin_str :: "'v \<Rightarrow> 'x + string"
  builtin_hash :: "string \<Rightarrow> int"

text \<open>Evaluation in order, stopping at the first exception.\<close>

fun sum_bind :: "'e + 'a \<Rightarrow> ('a \<Rightarrow> 'e + 'b) \<Rightarrow> 'e + 'b" where
  "sum_bind (Inl e) f = Inl e"
| "sum_bind (Inr x) f = f x"

fun sum_map :: "('a \<Rightarrow> 'e + 'b) \<Rightarrow> 'a list \<Rightarrow> 'e + 'b list" where
  "sum_map f [] = Inr []"
| "sum_map f (x # xs) = sum_bind (f x) (\<lambda>y. sum_bind (sum_map f xs) (\<lambda>ys. Inr (y # ys)))"

text \<open>
  \<open>HockeyCrashGroup.__hash__\<close> on values: the list \<open>properties\<close> is built from five
  attribute accesses, then each is rendered by \<open>str\<close>, then the join is hashed.
\<close>

definition HockeyCrashGroup_hash_value :: "('v, 'x) interpreter \<Rightarrow> 'v \<Rightarrow> 'x + int" where
  "HockeyCrashGroup_hash_value I self =
     sum_bind
       (sum_map (getattr I self)
          [''exception_type'', ''reason'', ''crash_method'', ''crash_file'', ''crash_class''])
       (\<lambda>properties.
          sum_bind (sum_map (builtin_str I) properties)
            (\<lambda>rendered. Inr (builtin_hash I (py_join ''-'' rendered))))"

text \<open>\<open>HockeyCrashGroup.__eq__\<close> on values.\<close>

definition HockeyCrashGroup_eq_value :: "('v, 'x) interpreter \<Rightarrow> 'v \<Rightarrow> 'v \<Rightarrow> 'x + bool" where
  "HockeyCrashGroup_eq_value I self other =
     (if \<not> isinstance_group I other then Inr False
      else
        sum_bind (HockeyCrashGroup_hash_value I self) (\<lambda>h1.
        sum_bind (HockeyCrashGroup_hash_value I other) (\<lambda>h2.
        Inr (h1 = h2))))"

text \<open>
  One interpreter, to compute with. A value is a builtin or an instance of a class, given
  by the name of its class and its attribute dictionary; no class of the module derives
  from another, so the name of the class decides \<open>isinstance\<close>. A missing attribute raises
  \<open>AttributeError\<close>; \<open>str\<close> renders \<open>None\<close>, strings and integers, and is not modelled
  for the rest, where it raises.
\<close>

datatype py_value =
    VNone
  | VBool bool
  | VInt int
  | VStr string
  | VList "py_value list"
  | VInstance string "(string \<times> py_value) list"

datatype py_error =
    AttributeError string
  | StrNotModelled

fun value_isinstance :: "py_value \<Rightarrow> string \<Rightarrow> bool" where
  "value_isinstance (VInstance cls attrs) name = (cls = name)"
| "value_isinstance other name = False"

fun value_getattr :: "py_value \<Rightarrow> string \<Rightarrow> py_error + py_value" where
  "value_getattr (VInstance cls attrs) name =
     (case map_of attrs name of Some v \<Rightarrow> Inr v | None \<Rightarrow> Inl (AttributeError name))"
| "value_getattr other name = Inl (AttributeError name)"

fun value_str :: "py_value \<Rightarrow> py_error + string" where
  "value_str VNone = Inr ''None''"
| "value_str (VStr s) = Inr s"
| "value_str (VInt i) = Inr (py_str_int i)"
| "value_str other = Inl StrNotModelled"

definition value_interpreter :: "(string \<Rightarrow> int) \<Rightarrow> (py_value, py_error) interpreter" where
  "value_interpreter py_hash =
     \<lparr> isinstance_group = (\<lambda>v. value_isinstance v ''HockeyCrashGroup''),
       getattr = value_getattr,
       builtin_str = value_str,
       builtin_hash = py_hash \<rparr>"

text \<open>A decoded crash group as a value.\<close>

fun value_of_optional_str :: "string option \<Rightarrow> py_value" where
  "value_of_optional_str None = VNone"
| "value_of_optional_str (Some s) = VStr s"

definition value_of_group :: "HockeyCrashGroup \<Rightarrow> py_value" where
  "value_of_group g =
     VInstance ''HockeyCrashGroup''
       [ (''identifier'', VInt (HockeyCrashGroup.identifier g)),
         (''app_id'', VInt (HockeyCrashGroup.app_id g)),
         (''created_at'', VStr (HockeyCrashGroup.created_at g)),
         (''updated_at'', VStr (HockeyCrashGroup.updated_at g)),
         (''status'', VInt (HockeyCrashGroup.status g)),
         (''reason'', value_of_optional_str (reason g)),
         (''last_crash_at'', VStr (last_crash_at g)),
         (''exception_type'', value_of_optional_str (exception_type g)),
         (''fixed'', VBool (fixed g)),
         (''app_version_id'', VInt (HockeyCrashGroup.app_version_id g)),
         (''bundle_version'', VStr (HockeyCrashGroup.bundle_version g)),
         (''bundle_short_version'', VStr (HockeyCrashGroup.bundle_short_version g)),
         (''number_of_crashes'', VInt (number_of_crashes g)),
         (''grouping_hash'', VStr (grouping_hash g)),
         (''grouping_type'', VInt (grouping_type g)),
         (''pattern'', value_of_optional_str (pattern g)),
         (''crash_method'', value_of_optional_str (crash_method g)),
         (''crash_file'', value_of_optional_str (crash_file g)),
         (''crash_class'', value_of_optional_str (crash_class g)),
         (''crash_line'', value_of_optional_str (crash_line g)) ]"

section \<open>Decoding a crash group\<close>

text \<open>
  The decorators of \<open>HockeyCrashGroup\<close> (lines 15 to 19): attribute name, then the key
  of the raw record it is read from.
\<close>

definition HockeyCrashGroup_keys :: "(string \<times> string) list" where
  "HockeyCrashGroup_keys =
     [ (''identifier'', ''id''),
       (''crash_method'', ''method''),
       (''crash_file'', ''file''),
       (''crash_class'', ''class''),
       (''crash_line'', ''line'') ]"

text \<open>A decoded JSON value; a raw record is the list of the pairs of a JSON object.\<close>

datatype json =
    JNull
  | JBool bool
  | JInt int
  | JStr string
  | JArray "json list"
  | JObject "(string \<times> json) list"

text \<open>
  Modelled from the spec: the decoder \<open>deserialize.deserialize\<close>, a package that is not
  part of the sources. The spec's decoder contract: the attributes of the class are read
  from the raw record, an attribute with a \<open>key\<close> decorator from the key the decorator
  names and any other from the key of its own name; a value that does not fit the declared
  type of the attribute, or a missing value for an attribute that is not optional, is a
  decoding error (\<open>None\<close> here).
\<close>

definition key_for :: "(string \<times> string) list \<Rightarrow> string \<Rightarrow> string" where
  "key_for keys attribute = (case map_of keys attribute of Some k \<Rightarrow> k | None \<Rightarrow> attribute)"

definition raw_value ::
  "(string \<times> string) list \<Rightarrow> (string \<times> json) list \<Rightarrow> string \<Rightarrow> json option" where
  "raw_value keys raw attribute = map_of raw (key_for keys attribute)"

fun as_int :: "json option \<Rightarrow> int option" where
  "as_int (Some (JInt i)) = Some i"
| "as_int other = None"

fun as_str :: "json option \<Rightarrow> string option" where
  "as_str (Some (JStr s)) = Some s"
| "as_str other = None"

fun as_bool :: "json option \<Rightarrow> bool option" where
  "as_bool (Some (JBool b)) = Some b"
| "as_bool other = None"

fun as_optional_str :: "json option \<Rightarrow> string option option" where
  "as_optional_str None = Some None"
| "as_optional_str (Some JNull) = Some None"
| "as_optional_str (Some (JStr s)) = Some (Some s)"
| "as_optional_str other = None"

text \<open>The JSON value that an optional string attribute was read from, when its key was there.\<close>

fun json_of_optional_str :: "string option \<Rightarrow> json" where
  "json_of_optional_str None = JNull"
| "json_of_optional_str (Some s) = JStr s"

text \<open>
  Modelled from the spec: \<open>deserialize.deserialize(HockeyCrashGroup, raw)\<close>, with the
  attributes and their types as the class declares them (lines 23 to 42).
\<close>

definition deserialize_HockeyCrashGroup :: "(string \<times> json) list \<Rightarrow> HockeyCrashGroup option" where
  "deserialize_HockeyCrashGroup raw =
     (let field = raw_value HockeyCrashGroup_keys raw in
      do {
        v_identifier \<leftarrow> as_int (field ''identifier'');
        v_app_id \<leftarrow> as_int (field ''app_id'');
        v_created_at \<leftarrow> as_str (field ''created_at'');
        v_updated_at \<leftarrow> as_str (field ''updated_at'');
        v_status \<leftarrow> as_int (field ''status'');
        v_reason \<leftarrow> as_optional_str (field ''reason'');
        v_last_crash_at \<leftarrow> as_str (field ''last_crash_at'');
        v_exception_type \<leftarrow> as_optional_str (field ''exception_type'');
        v_fixed \<leftarrow> as_bool (field ''fixed'');
        v_app_version_id \<leftarrow> as_int (field ''app_version_id'');
        v_bundle_version \<leftarrow> as_str (field ''bundle_version'');
        v_bundle_short_version \<leftarrow> as_str (field ''bundle_short_version'');
        v_number_of_crashes \<leftarrow> as_int (field ''number_of_crashes'');
        v_grouping_hash \<leftarrow> as_str (field ''grouping_hash'');
        v_grouping_type \<leftarrow> as_int (field ''grouping_type'');
        v_pattern \<leftarrow> as_optional_str (field ''pattern'');
        v_crash_method \<leftarrow> as_optional_str (field ''crash_method'');
        v_crash_file \<leftarrow> as_optional_str (field ''crash_file'');
        v_crash_class \<leftarrow> as_optional_str (field ''crash_class'');
        v_crash_line \<leftarrow> as_optional_str (field ''crash_line'');
        Some \<lparr> HockeyCrashGroup.identifier = v_identifier,
               HockeyCrashGroup.app_id = v_app_id,
               HockeyCrashGroup.created_at = v_created_at,
               HockeyCrashGroup.updated_at = v_updated_at,
               HockeyCrashGroup.status = v_status,
               reason = v_reason,
               last_crash_at = v_last_crash_at,
               exception_type = v_exception_type,
               fixed = v_fixed,
               HockeyCrashGroup.app_version_id = v_app_version_id,
               HockeyCrashGroup.bundle_version = v_bundle_version,
               HockeyCrashGroup.bundle_short_version = v_bundle_short_version,
               number_of_crashes = v_number_of_crashes,
               grouping_hash = v_grouping_hash,
               grouping_type = v_grouping_type,
               pattern = v_pattern,
               crash_method = v_crash_method,
               crash_file = v_crash_file,
               crash_class = v_crash_class,
               crash_line = v_crash_line \<rparr>
      })"

section \<open>Concrete inputs\<close>

text \<open>A crash group with the given identifier, reason and crashing method.\<close>

definition example_group :: "int \<Rightarrow> string option \<Rightarrow> string option \<Rightarrow> HockeyCrashGroup" where
  "example_group i r m =
     \<lparr> HockeyCrashGroup.identifier = i,
       HockeyCrashGroup.app_id = 7,
       HockeyCrashGroup.created_at = ''2019-01-01T00:00:00Z'',
       HockeyCrashGroup.updated_at = ''2019-01-02T00:00:00Z'',
       HockeyCrashGroup.status = 0,
       reason = r,
       last_crash_at = ''2019-01-02T00:00:00Z'',
       exception_type = None,
       fixed = False,
       HockeyCrashGroup.app_version_id = 3,
       HockeyCrashGroup.bundle_version = ''100'',
       HockeyCrashGroup.bundle_short_version = ''1.0'',
       number_of_crashes = i + 4,
       grouping_hash = ''abc'',
       grouping_type = 1,
       pattern = None,
       crash_method = m,
       crash_file = Some ''Main.m'',
       crash_class = Some ''MainController'',
       crash_line = Some ''12'' \<rparr>"

text \<open>A crash instance of group 1 with the given identifier.\<close>

definition example_instance :: "int \<Rightarrow> HockeyCrashInstance" where
  "example_instance i =
     \<lparr> HockeyCrashInstance.identifier = i,
       HockeyCrashInstance.app_id = 7,
       crash_reason_id = 1,
       HockeyCrashInstance.created_at = ''2019-01-01T00:00:00Z'',
       HockeyCrashInstance.updated_at = ''2019-01-01T00:00:00Z'',
       oem = ''Apple'',
       model = ''iPhone10,1'',
       os_version = ''12.1'',
       jail_break = False,
       contact_string = ''none'',
       user_string = ''none'',
       has_log = True,
       has_description = False,
       HockeyCrashInstance.app_version_id = 3,
       HockeyCrashInstance.bundle_version = ''100'',
       HockeyCrashInstance.bundle_short_version = ''1.0'' \<rparr>"

text \<open>
  The two-page fixture of the spec's end-to-end scenario: page 1 holds two groups, page 2
  holds one, both announce two pages; group 1 has one crash instance, on one page. The body
  of a response is the URL that was asked for, and the decoder tells the page by its last
  character. The interpreter has room for 989 nested generators.
\<close>

definition groups_envelope :: "HockeyCrashGroup list \<Rightarrow> int \<Rightarrow> int \<Rightarrow> HockeyCrashGroupsResponse" where
  "groups_envelope gs page pages =
     \<lparr> crash_reasons = gs,
       HockeyCrashGroupsResponse.status = ''success'',
       HockeyCrashGroupsResponse.current_page = page,
       HockeyCrashGroupsResponse.per_page = 100,
       HockeyCrashGroupsResponse.total_entries = 3,
       HockeyCrashGroupsResponse.total_pages = pages \<rparr>"

definition two_page_client :: "(string, string) client" where
  "two_page_client =
     \<lparr> api_base_url = ''https://rink.hockeyapp.net/api/2/apps'',
       get = (\<lambda>url retry_count. Inr url),
       deserialize_groups = (\<lambda>body.
         if last body = CHR ''1''
         then Inr (groups_envelope
                [example_group 1 (Some ''boom'') None, example_group 2 None (Some ''run'')] 1 2)
         else if last body = CHR ''2''
         then Inr (groups_envelope [example_group 3 (Some ''bang'') None] 2 2)
         else Inl ''DecodeError''),
       deserialize_crashes = (\<lambda>body.
         if last body = CHR ''1''
         then Inr \<lparr> crash_reason = example_group 1 (Some ''boom'') None,
                    crashes = [example_instance 11],
                    HockeyCrashesResponse.status = ''success'',
                    HockeyCrashesResponse.current_page = 1,
                    HockeyCrashesResponse.per_page = 100,
                    HockeyCrashesResponse.total_entries = 1,
                    HockeyCrashesResponse.total_pages = 1 \<rparr>
         else Inl ''DecodeError''),
       recursion_budget = 989 \<rparr>"

text \<open>The same server, with the request for page 2 failing after its retries.\<close>

definition failing_client :: "(string, string) client" where
  "failing_client =
     two_page_client \<lparr> get := (\<lambda>url retry_count.
       if last url = CHR ''2'' then Inl ''RequestFailed'' else Inr url) \<rparr>"

text \<open>
  The two-page server with crash instances that go on after page 1: page 1 holds one
  instance and announces two pages, and the body of page 2 does not decode.
\<close>

definition failing_crashes_client :: "(string, string) client" where
  "failing_crashes_client =
     two_page_client \<lparr> deserialize_crashes := (\<lambda>body.
       if last body = CHR ''1''
       then Inr \<lparr> crash_reason = example_group 1 (Some ''boom'') None,
                  crashes = [example_instance 11],
                  HockeyCrashesResponse.status = ''success'',
                  HockeyCrashesResponse.current_page = 1,
                  HockeyCrashesResponse.per_page = 100,
                  HockeyCrashesResponse.total_entries = 101,
                  HockeyCrashesResponse.total_pages = 2 \<rparr>
       else Inl ''DecodeError'') \<rparr>"

text \<open>
  A server with a thousand pages of crash groups: every page holds one group and announces
  1000 pages (the envelope's \<open>current_page\<close>, which the module never reads, is left at 1).
\<close>

definition thousand_page_client :: "(string, string) client" where
  "thousand_page_client =
     two_page_client \<lparr> deserialize_groups := (\<lambda>body.
       Inr (groups_envelope [example_group 1 (Some ''boom'') None] 1 1000)) \<rparr>"

text \<open>A server with nothing to report: every page is empty and announces zero pages.\<close>

definition empty_client :: "(string, string) client" where
  "empty_client =
     two_page_client \<lparr> deserialize_groups := (\<lambda>body. Inr (groups_envelope [] 1 0)) \<rparr>"

text \<open>A crash group with the given five signature attributes.\<close>

definition signature_group ::
  "string option \<Rightarrow> string option \<Rightarrow> string option \<Rightarrow> string option \<Rightarrow> string option
     \<Rightarrow> HockeyCrashGroup" where
  "signature_group e r m f k =
     (example_group 1 r m) \<lparr> exception_type := e, crash_file := f, crash_class := k \<rparr>"

text \<open>A raw crash group as the service sends it.\<close>

definition example_raw :: "(string \<times> json) list" where
  "example_raw =
     [ (''id'', JInt 42), (''app_id'', JInt 7), (''created_at'', JStr ''2019-01-01T00:00:00Z''),
       (''updated_at'', JStr ''2019-01-02T00:00:00Z''), (''status'', JInt 0),
       (''reason'', JStr ''boom''), (''last_crash_at'', JStr ''2019-01-02T00:00:00Z''),
       (''exception_type'', JNull), (''fixed'', JBool False), (''app_version_id'', JInt 3),
       (''bundle_version'', JStr ''100''), (''bundle_short_version'', JStr ''1.0''),
       (''number_of_crashes'', JInt 5), (''grouping_hash'', JStr ''abc''),
       (''grouping_type'', JInt 1), (''method'', JStr ''viewDidLoad''),
       (''file'', JStr ''Main.m''), (''class'', JStr ''MainController''),
       (''line'', JStr ''12'') ]"

text \<open>The same with no crash location: the four location keys hold \<open>null\<close>.\<close>

definition example_raw_null :: "(string \<times> json) list" where
  "example_raw_null =
     [ (''id'', JInt 43), (''app_id'', JInt 7), (''created_at'', JStr ''2019-01-01T00:00:00Z''),
       (''updated_at'', JStr ''2019-01-02T00:00:00Z''), (''status'', JInt 0),
       (''reason'', JNull), (''last_crash_at'', JStr ''2019-01-02T00:00:00Z''),
       (''exception_type'', JNull), (''fixed'', JBool False), (''app_version_id'', JInt 3),
       (''bundle_version'', JStr ''100''), (''bundle_short_version'', JStr ''1.0''),
       (''number_of_crashes'', JInt 1), (''grouping_hash'', JStr ''abd''),
       (''grouping_type'', JInt 1), (''method'', JNull),
       (''file'', JNull), (''class'', JNull),
       (''line'', JNull) ]"

section \<open>Equality and hashing: proofs\<close>





lemma signature_group_fields:
  "exception_type (signature_group e r m f k) = e"
  "reason (signature_group e r m f k) = r"
  "crash_method (signature_group e r m f k) = m"
  "crash_file (signature_group e r m f k) = f"
  "crash_class (signature_group e r m f k) = k"
  by (simp_all add: signature_group_def example_group_def)


text \<open>
  The third proviso of C2 as amended cannot be dropped either: a builtin hash with finitely
  many values (it has at most \<open>2^64\<close>) gives the same value to the joined strings of two
  crash groups that differ in \<open>reason\<close> alone, and these compare equal.
\<close>

lemma hash_collisions_exist:
  assumes "finite (range py_hash)"
  shows "\<exists>m n. m \<noteq> n \<and>
           clear_signatures (signature_group None (Some (replicate m CHR ''a'')) None None None)
                            (signature_group None (Some (replicate n CHR ''a'')) None None None) \<and>
           reason (signature_group None (Some (replicate m CHR ''a'')) None None None) \<noteq>
             reason (signature_group None (Some (replicate n CHR ''a'')) None None None) \<and>
           HockeyCrashGroup_eq py_hash
             (signature_group None (Some (replicate m CHR ''a'')) None None None)
             (PyCrashGroup (signature_group None (Some (replicate n CHR ''a'')) None None None))"
proof -
  let ?g = "\<lambda>n::nat. signature_group None (Some (replicate n CHR ''a'')) None None None"
  let ?f = "\<lambda>n. py_hash (joined_properties (?g n))"
  have "range ?f \<subseteq> range py_hash" by auto
  with assms have "finite (range ?f)" by (rule finite_subset[rotated])
  then have "\<not> inj ?f" using finite_imageD by fastforce
  then obtain m n where mn: "m \<noteq> n" and same: "?f m = ?f n" by (auto simp: inj_on_def)
  have clear: "clear_signatures (?g m) (?g n)"
    by (simp add: clear_signatures_def properties_def signature_group_fields none_confused_def)
  have differ: "reason (?g m) \<noteq> reason (?g n)"
  proof
    assume "reason (?g m) = reason (?g n)"
    then have "length (replicate m CHR ''a'') = length (replicate n CHR ''a'')"
      by (simp add: signature_group_fields)
    with mn show False by simp
  qed
  from same have "HockeyCrashGroup_eq py_hash (?g m) (PyCrashGroup (?g n))"
    by (simp add: HockeyCrashGroup_hash_def)
  with mn clear differ show ?thesis by blast
qed




section \<open>Equality among all values: proofs\<close>

lemma value_str_optional: "value_str (value_of_optional_str p) = Inr (py_str p)"
  by (cases p) simp_all

lemma hash_value_of_group:
  "HockeyCrashGroup_hash_value (value_interpreter py_hash) (value_of_group g) =
     Inr (HockeyCrashGroup_hash py_hash g)"
  by (simp add: HockeyCrashGroup_hash_value_def value_interpreter_def value_of_group_def
        value_str_optional HockeyCrashGroup_hash_def joined_properties_def properties_def)

text \<open>
  On decoded crash groups \<open>__eq__\<close> on values is \<open>__eq__\<close> on the records.
\<close>

lemma eq_value_of_groups:
  "HockeyCrashGroup_eq_value (value_interpreter py_hash) (value_of_group g1) (value_of_group g2) =
     Inr (HockeyCrashGroup_eq py_hash g1 (PyCrashGroup g2))"
  by (simp add: HockeyCrashGroup_eq_value_def hash_value_of_group)
     (simp add: value_interpreter_def value_of_group_def)




text \<open>
  C10. Equality and hashing look only at the signature attributes rendered as strings and
  joined with hyphens: two crash groups with the same joined string compare equal and hash
  equal. So \<open>None\<close> in a signature attribute is taken for the string \<open>None\<close> in it, and a
  hyphen inside an attribute is taken for the hyphen between two attributes.
\<close>

theorem eq_on_joined_rendering:
  "(joined_properties g1 = joined_properties g2 \<longrightarrow>
      HockeyCrashGroup_eq py_hash g1 (PyCrashGroup g2) \<and>
      HockeyCrashGroup_hash py_hash g1 = HockeyCrashGroup_hash py_hash g2) \<and>
   HockeyCrashGroup_eq py_hash (g\<lparr>exception_type := None\<rparr>)
     (PyCrashGroup (g\<lparr>exception_type := Some ''None''\<rparr>)) \<and>
   HockeyCrashGroup_eq py_hash (g\<lparr>reason := None\<rparr>)
     (PyCrashGroup (g\<lparr>reason := Some ''None''\<rparr>)) \<and>
   HockeyCrashGroup_eq py_hash (g\<lparr>crash_method := None\<rparr>)
     (PyCrashGroup (g\<lparr>crash_method := Some ''None''\<rparr>)) \<and>
   HockeyCrashGroup_eq py_hash (g\<lparr>crash_file := None\<rparr>)
     (PyCrashGroup (g\<lparr>crash_file := Some ''None''\<rparr>)) \<and>
   HockeyCrashGroup_eq py_hash (g\<lparr>crash_class := None\<rparr>)
     (PyCrashGroup (g\<lparr>crash_class := Some ''None''\<rparr>)) \<and>
   HockeyCrashGroup_eq py_hash
     (g\<lparr>reason := Some (a @ ''-'' @ b), crash_method := Some m\<rparr>)
     (PyCrashGroup (g\<lparr>reason := Some a, crash_method := Some (b @ ''-'' @ m)\<rparr>))"
  by (simp add: HockeyCrashGroup_hash_def joined_properties_def properties_def)

theorem eq_on_joined_rendering_witness:
  "joined_properties (example_group 1 (Some ''a-b'') (Some ''c'')) =
     joined_properties (example_group 2 (Some ''a'') (Some ''b-c'')) \<and>
   reason (example_group 1 (Some ''a-b'') (Some ''c'')) \<noteq>
     reason (example_group 2 (Some ''a'') (Some ''b-c'')) \<and>
   HockeyCrashGroup_eq (\<lambda>s. int (length s)) (example_group 1 (Some ''a-b'') (Some ''c''))
     (PyCrashGroup (example_group 2 (Some ''a'') (Some ''b-c''))) \<and>
   HockeyCrashGroup_hash (\<lambda>s. int (length s)) (example_group 1 (Some ''a-b'') (Some ''c'')) =
     HockeyCrashGroup_hash (\<lambda>s. int (length s)) (example_group 2 (Some ''a'') (Some ''b-c''))"
proof -
  have h: "joined_properties (example_group 1 (Some ''a-b'') (Some ''c'')) =
     joined_properties (example_group 2 (Some ''a'') (Some ''b-c''))"
    by (simp add: joined_properties_def properties_def example_group_def)
  have d: "reason (example_group 1 (Some ''a-b'') (Some ''c'')) \<noteq>
     reason (example_group 2 (Some ''a'') (Some ''b-c''))"
    by (simp add: example_group_def)
  from eq_on_joined_rendering
         [of "example_group 1 (Some ''a-b'') (Some ''c'')"
             "example_group 2 (Some ''a'') (Some ''b-c'')" "\<lambda>s. int (length s)"]
       h d
  show ?thesis by blast
qed

section \<open>The generators: one step\<close>

lemma gen_next_Enter:
  "gen_next c R (Enter d p) log =
     (if d \<ge> recursion_budget c then Some (Raise RecursionError, Finished, log)
      else
        (case page_result c R p of
           Inl e \<Rightarrow> Some (Raise (Collaborator e), Finished, log @ [(request_url R p, 3)])
         | Inr (items, tot) \<Rightarrow>
             gen_next c R (Yielding d items tot p) (log @ [(request_url R p, 3)])))"
  by (subst gen_next.simps) (simp add: client_get_def page_result_def split: sum.splits prod.splits)

lemma gen_next_Cons:
  "gen_next c R (Yielding d (x # xs) tot p) log = Some (Yield x, Yielding d xs tot p, log)"
  by (subst gen_next.simps) simp

lemma gen_next_Nil:
  "gen_next c R (Yielding d [] tot p) log =
     (if tot > p then gen_next c R (Enter (d + 1) (p + 1)) log
      else Some (StopIteration, Finished, log))"
  by (subst gen_next.simps) simp

lemma gen_next_Finished:
  "gen_next c R Finished log = Some (StopIteration, Finished, log)"
  by (subst gen_next.simps) simp

text \<open>\<open>next\<close> always returns: the recursion budget bounds the pages one call walks.\<close>

lemma gen_next_returns: "\<exists>y. gen_next c R fr log = Some y"
proof (induction "frame_measure (recursion_budget c) fr" arbitrary: fr log rule: less_induct)
  case less
  show ?case
  proof (cases fr)
    case (Enter d p)
    show ?thesis
    proof (cases "d \<ge> recursion_budget c")
      case True
      with Enter show ?thesis by (simp add: gen_next_Enter)
    next
      case False
      show ?thesis
      proof (cases "page_result c R p")
        case (Inl e)
        with Enter False show ?thesis by (simp add: gen_next_Enter)
      next
        case (Inr r)
        obtain xs tot where r: "r = (xs, tot)" by (cases r)
        have "frame_measure (recursion_budget c) (Yielding d xs tot p)
                < frame_measure (recursion_budget c) fr"
          using Enter False by simp
        from less[OF this] Enter False Inr r show ?thesis by (simp add: gen_next_Enter)
      qed
    qed
  next
    case (Yielding d xs tot p)
    show ?thesis
    proof (cases xs)
      case Nil
      show ?thesis
      proof (cases "tot > p")
        case True
        have "frame_measure (recursion_budget c) (Enter (d + 1) (p + 1))
                < frame_measure (recursion_budget c) fr"
          using Yielding by (auto simp: Suc_diff_Suc)
        from less[OF this] Yielding Nil True show ?thesis by (simp add: gen_next_Nil)
      next
        case False
        with Yielding Nil show ?thesis by (simp add: gen_next_Nil)
      qed
    next
      case (Cons x rest)
      with Yielding show ?thesis by (simp add: gen_next_Cons)
    qed
  next
    case Finished
    then show ?thesis by (simp add: gen_next_Finished)
  qed
qed

section \<open>The calls of \<open>get\<close> a step makes\<close>

lemma gen_next_requests:
  assumes "gen_next c R fr log = Some y"
  shows "\<exists>last. snd (snd y) = log @ requests_of_pages R (next_page fr) last"
proof (rule gen_next.raw_induct[OF _ assms], goal_cases)
  case prems: (1 nxt c R fr log y)
  show ?case
  proof (cases fr)
    case (Enter d p)
    show ?thesis
    proof (cases "d \<ge> recursion_budget c")
      case True
      with prems(2) Enter have "snd (snd y) = log @ requests_of_pages R (next_page fr) (p - 1)"
        by (auto simp: requests_of_pages_def)
      then show ?thesis ..
    next
      case budget: False
      show ?thesis
      proof (cases "get c (request_url R p) 3")
        case (Inl e)
        with prems(2) Enter budget have "snd (snd y) = log @ [(request_url R p, 3)]"
          by (auto simp: client_get_def)
        then have "snd (snd y) = log @ requests_of_pages R (next_page fr) p"
          using Enter by (simp add: requests_of_pages_def)
        then show ?thesis ..
      next
        case (Inr body)
        show ?thesis
        proof (cases "deserialize R body")
          case (Inl e)
          with prems(2) Enter budget Inr have "snd (snd y) = log @ [(request_url R p, 3)]"
            by (auto simp: client_get_def)
          then have "snd (snd y) = log @ requests_of_pages R (next_page fr) p"
            using Enter by (simp add: requests_of_pages_def)
          then show ?thesis ..
        next
          case (Inr r)
          obtain items tot where r: "r = (items, tot)" by (cases r)
          with prems(2) Enter budget \<open>get c (request_url R p) 3 = Inr body\<close> Inr
          have "nxt c R (Yielding d items tot p) (log @ [(request_url R p, 3)]) = Some y"
            by (simp add: client_get_def)
          from prems(1)[OF this] obtain last where
            l: "snd (snd y) = (log @ [(request_url R p, 3)]) @ requests_of_pages R (p + 1) last"
            by auto
          have "snd (snd y) = log @ requests_of_pages R p (max p last)"
          proof (cases "p \<le> last")
            case True
            then show ?thesis
              using l by (simp add: requests_of_pages_def upto_rec1[of p last] max_def)
          next
            case False
            then show ?thesis using l by (simp add: requests_of_pages_def max_def)
          qed
          then show ?thesis using Enter by auto
        qed
      qed
    qed
  next
    case (Yielding d items tot p)
    show ?thesis
    proof (cases items)
      case Nil
      show ?thesis
      proof (cases "tot > p")
        case True
        with prems(2) Yielding Nil have "nxt c R (Enter (d + 1) (p + 1)) log = Some y" by simp
        from prems(1)[OF this] show ?thesis using Yielding by simp
      next
        case False
        with prems(2) Yielding Nil
        have "snd (snd y) = log @ requests_of_pages R (next_page fr) p"
          by (auto simp: requests_of_pages_def)
        then show ?thesis ..
      qed
    next
      case (Cons x rest)
      with prems(2) Yielding
      have "snd (snd y) = log @ requests_of_pages R (next_page fr) p"
        by (auto simp: requests_of_pages_def)
      then show ?thesis ..
    qed
  next
    case Finished
    with prems(2) have "snd (snd y) = log @ requests_of_pages R (next_page fr) (- 1)"
      by (auto simp: requests_of_pages_def)
    then show ?thesis ..
  qed
qed

section \<open>The lazy form, page by page\<close>

lemma pulls_same_next:
  "gen_next c R fr1 log1 = gen_next c R fr2 log2
     \<Longrightarrow> pulls c R (Suc n) fr1 log1 = pulls c R (Suc n) fr2 log2"
  by simp

lemma pulls_Yielding:
  "pulls c R (length xs + n) (Yielding d xs tot p) log =
     map_option (\<lambda>(ss, st). (map Yield xs @ ss, st)) (pulls c R n (Yielding d [] tot p) log)"
proof (induction xs)
  case Nil
  then show ?case by (simp add: option.map_ident case_prod_unfold)
next
  case (Cons x xs)
  then show ?case
    by (simp add: gen_next_Cons split: option.splits)
qed

lemma pulls_final_page:
  assumes "final_page c R p" and "d < recursion_budget c"
  shows "pulls c R (length (page_items c R p) + 1) (Enter d p) log =
           Some (map Yield (page_items c R p) @ [final_signal c R p], Finished,
                 log @ [(request_url R p, 3)])"
proof (cases "page_result c R p")
  case (Inl e)
  then show ?thesis
    using assms(2) by (simp add: page_items_def final_signal_def gen_next_Enter)
next
  case (Inr r)
  obtain xs tot where r: "r = (xs, tot)" by (cases r)
  with Inr assms have le: "\<not> tot > p" by (simp add: final_page_def)
  have "pulls c R (length xs + 1) (Enter d p) log
      = pulls c R (length xs + 1) (Yielding d xs tot p) (log @ [(request_url R p, 3)])"
    using Inr r assms(2)
      pulls_same_next[of c R "Enter d p" log "Yielding d xs tot p"
        "log @ [(request_url R p, 3)]" "length xs"]
    by (simp add: gen_next_Enter)
  also have "\<dots> = Some (map Yield xs @ [StopIteration], Finished, log @ [(request_url R p, 3)])"
    using le by (simp only: pulls_Yielding) (simp add: gen_next_Nil)
  finally show ?thesis using Inr r by (simp add: page_items_def final_signal_def)
qed

lemma pulls_continuing_page:
  assumes "page_result c R p = Inr (xs, tot)" and "tot > p" and "d < recursion_budget c"
  shows "pulls c R (length xs + Suc n) (Enter d p) log =
           map_option (\<lambda>(ss, st). (map Yield xs @ ss, st))
             (pulls c R (Suc n) (Enter (d + 1) (p + 1)) (log @ [(request_url R p, 3)]))"
proof -
  have "pulls c R (length xs + Suc n) (Enter d p) log
      = pulls c R (length xs + Suc n) (Yielding d xs tot p) (log @ [(request_url R p, 3)])"
    using assms
      pulls_same_next[of c R "Enter d p" log "Yielding d xs tot p"
        "log @ [(request_url R p, 3)]" "length xs + n"]
    by (simp add: gen_next_Enter)
  also have "\<dots> = map_option (\<lambda>(ss, st). (map Yield xs @ ss, st))
             (pulls c R (Suc n) (Yielding d [] tot p) (log @ [(request_url R p, 3)]))"
    by (rule pulls_Yielding)
  also have "pulls c R (Suc n) (Yielding d [] tot p) (log @ [(request_url R p, 3)])
      = pulls c R (Suc n) (Enter (d + 1) (p + 1)) (log @ [(request_url R p, 3)])"
    using assms by (intro pulls_same_next) (simp add: gen_next_Nil)
  finally show ?thesis .
qed

text \<open>
  A run from page \<open>p\<close> to a page \<open>L\<close> where it ends, with room for all its generators.
\<close>

lemma pulls_run:
  assumes "\<forall>q. p \<le> q \<and> q < L \<longrightarrow> continuing_page c R q" and "final_page c R L" and "p \<le> L"
    and "d + nat (L - p) < recursion_budget c"
  shows "pulls c R (length (items_of_pages c R p L) + 1) (Enter d p) log =
           Some (map Yield (items_of_pages c R p L) @ [final_signal c R L], Finished,
                 log @ requests_of_pages R p L)"
  using assms
proof (induction "nat (L - p)" arbitrary: p d log)
  case 0
  then have "p = L" by simp
  with 0 show ?case
    using pulls_final_page[of c R L d log]
    by (simp add: items_of_pages_def requests_of_pages_def)
next
  case (Suc k)
  then have lt: "p < L" by linarith
  with Suc.prems have "continuing_page c R p" by simp
  then obtain xs tot where pr: "page_result c R p = Inr (xs, tot)" and more: "tot > p"
    by (auto simp: continuing_page_def split: sum.splits)
  have room: "d < recursion_budget c" using Suc.prems(4) by simp
  have items: "page_items c R p = xs" using pr by (simp add: page_items_def)
  have IH: "pulls c R (length (items_of_pages c R (p + 1) L) + 1) (Enter (d + 1) (p + 1))
              (log @ [(request_url R p, 3)]) =
           Some (map Yield (items_of_pages c R (p + 1) L) @ [final_signal c R L], Finished,
                 (log @ [(request_url R p, 3)]) @ requests_of_pages R (p + 1) L)"
    using Suc.hyps(2) Suc.prems lt by (intro Suc.hyps(1)) auto
  have up: "[p..L] = p # [p + 1..L]" using lt by (simp add: upto_rec1)
  show ?case
    using pulls_continuing_page[OF pr more room, of "length (items_of_pages c R (p + 1) L)" log] IH
    by (simp add: items_of_pages_def requests_of_pages_def up items add.assoc del: pulls.simps)
qed


section \<open>The eager forms, from what the lazy form gives\<close>

lemma list_from_pulls:
  "pulls c R (length xs + 1) fr log = Some (map Yield xs @ [s], fr', log') \<Longrightarrow> \<forall>z. s \<noteq> Yield z
     \<Longrightarrow> py_list_from c R acc fr log =
          Some (case s of Raise e \<Rightarrow> Inl e | _ \<Rightarrow> Inr (acc @ xs), log')"
proof (induction xs arbitrary: acc fr log)
  case Nil
  then show ?case
    by (subst py_list_from.simps) (auto split: option.splits signal.splits)
next
  case (Cons x xs)
  from Cons.prems(1) obtain fr1 log1 where
    n: "gen_next c R fr log = Some (Yield x, fr1, log1)"
    and r: "pulls c R (length xs + 1) fr1 log1 = Some (map Yield xs @ [s], fr', log')"
    by (auto split: option.splits)
  show ?case
    using Cons.IH[OF r Cons.prems(2), of "acc @ [x]"] n
    by (subst py_list_from.simps) (cases s; simp)
qed

lemma take_from_pulls:
  "pulls c R (length xs + 1) fr log = Some (map Yield xs @ [s], fr', log') \<Longrightarrow> \<forall>z. s \<noteq> Yield z
     \<Longrightarrow> length xs < n
     \<Longrightarrow> take_items c R n fr log = Some (case s of Raise e \<Rightarrow> Inl e | _ \<Rightarrow> Inr xs, log')"
proof (induction xs arbitrary: n fr log)
  case Nil
  then obtain n' where "n = Suc n'" by (cases n) auto
  with Nil show ?case
    by (auto split: option.splits signal.splits)
next
  case (Cons x xs)
  from Cons.prems(3) obtain n' where n: "n = Suc n'" and lt: "length xs < n'" by (cases n) auto
  from Cons.prems(1) obtain fr1 log1 where
    g: "gen_next c R fr log = Some (Yield x, fr1, log1)"
    and r: "pulls c R (length xs + 1) fr1 log1 = Some (map Yield xs @ [s], fr', log')"
    by (auto split: option.splits)
  show ?case
    using Cons.IH[OF r Cons.prems(2) lt] g n
    by (cases s) simp_all
qed

lemma loop_None_to_list:
  assumes "groups_for_version_loop c R mc groups fr log = Some y"
  shows "mc = None \<longrightarrow> py_list_from c R groups fr log = Some y"
proof (rule groups_for_version_loop.raw_induct[OF _ assms], goal_cases)
  case prems: (1 loop c R mc groups fr log y)
  show ?case
  proof
    assume "mc = None"
    with prems show "py_list_from c R groups fr log = Some y"
      by (cases y, subst py_list_from.simps) (auto split: option.splits signal.splits)
  qed
qed

lemma list_to_loop_None:
  assumes "py_list_from c R groups fr log = Some y"
  shows "groups_for_version_loop c R None groups fr log = Some y"
proof (rule py_list_from.raw_induct[OF _ assms], goal_cases)
  case prems: (1 lst c R groups fr log y)
  then show ?case
    by (cases y, subst groups_for_version_loop.simps) (auto split: option.splits signal.splits)
qed

lemma loop_None_eq_list:
  "groups_for_version_loop c R None groups fr log = py_list_from c R groups fr log"
proof (cases "py_list_from c R groups fr log")
  case None
  then show ?thesis
    using loop_None_to_list[of c R None groups fr log]
    by (cases "groups_for_version_loop c R None groups fr log") auto
next
  case (Some y)
  then show ?thesis by (simp add: list_to_loop_None)
qed

lemma prepend_simps:
  "prepend acc (Inl e, log) = (Inl e, log)"
  "prepend acc (Inr xs, log) = (Inr (acc @ xs), log)"
  by (simp_all add: prepend_def)

lemma prepend_Nil: "prepend [] r = r"
  by (cases r) (auto simp: prepend_def split: sum.splits)

lemma loop_Some_take:
  "nat (max 1 (m - int (length groups))) = Suc n \<Longrightarrow>
   groups_for_version_loop c R (Some m) groups fr log =
     map_option (prepend groups) (take_items c R (Suc n) fr log)"
proof (induction n arbitrary: groups fr log)
  case 0
  then have "m \<le> int (length groups) + 1" by linarith
  then show ?case
    by (subst groups_for_version_loop.simps)
       (auto simp: prepend_simps split: option.splits signal.splits)
next
  case (Suc n)
  then have gt: "\<not> m \<le> int (length groups) + 1" by linarith
  have step: "nat (max 1 (m - int (length (groups @ [x])))) = Suc n" for x
    using Suc.prems by simp
  show ?case
  proof (cases "gen_next c R fr log")
    case None
    then show ?thesis by (subst groups_for_version_loop.simps) simp
  next
    case (Some r)
    obtain s fr' log' where r: "r = (s, fr', log')" by (cases r)
    show ?thesis
    proof (cases s)
      case (Yield x)
      have "groups_for_version_loop c R (Some m) groups fr log =
              groups_for_version_loop c R (Some m) (groups @ [x]) fr' log'"
        using Some r Yield gt by (subst groups_for_version_loop.simps) simp
      also have "\<dots> = map_option (prepend (groups @ [x])) (take_items c R (Suc n) fr' log')"
        by (rule Suc.IH[OF step])
      also have "\<dots> = map_option (prepend groups) (take_items c R (Suc (Suc n)) fr log)"
        using Some r Yield
        by (cases "take_items c R (Suc n) fr' log'")
           (auto simp: prepend_def simp del: take_items.simps(2)
                 simp add: take_items.simps(2)[of c R "Suc n" fr log] split: sum.splits prod.splits)
      finally show ?thesis .
    next
      case StopIteration
      with Some r show ?thesis
        by (subst groups_for_version_loop.simps) (simp add: prepend_simps)
    next
      case (Raise e)
      with Some r show ?thesis
        by (subst groups_for_version_loop.simps) (simp add: prepend_simps)
    qed
  qed
qed

text \<open>
  With \<open>max_count = k\<close> the loop gives the first \<open>k\<close> items of the lazy sequence, and
  makes the calls of \<open>get\<close> of a consumer that pulls \<open>k\<close> items, for every \<open>k\<close> from 1 on.
  For \<open>k\<close> below 1 it gives what it gives for 1: the test of \<open>max_count\<close> comes after
  the first \<open>append\<close>.
\<close>

lemma groups_for_version_loop_max_count:
  "groups_for_version_loop c R (Some k) [] fr log = take_items c R (nat (max 1 k)) fr log"
proof -
  obtain n where n: "nat (max 1 k) = Suc n" by (cases "nat (max 1 k)") auto
  with loop_Some_take[where groups = "[]" and m = k and n = n and c = c and R = R
      and fr = fr and log = log]
  show ?thesis
    by (simp add: prepend_Nil[abs_def] option.map_ident del: take_items.simps)
qed

section \<open>Runs over several pages\<close>

lemma items_of_pages_failed_last:
  assumes "page_result c R N = Inl e" and "p \<le> N"
  shows "items_of_pages c R p N = items_of_pages c R p (N - 1)"
  using assms by (simp add: items_of_pages_def upto_rec2[of p N] page_items_def)

lemma length_items_of_pages:
  "length (items_of_pages c R p q) = sum_list (map (\<lambda>page. length (page_items c R page)) [p..q])"
  by (simp add: items_of_pages_def length_concat comp_def)

lemma length_requests_of_pages:
  "p \<le> q + 1 \<Longrightarrow> int (length (requests_of_pages R p q)) = q - p + 1"
  by (simp add: requests_of_pages_def)

section \<open>The two collections as paged resources\<close>

lemma page_result_groups:
  "page_result c (generate_groups_for_version c app ver) p =
     (case groups_response_at c app ver p of
        Inl e \<Rightarrow> Inl e
      | Inr r \<Rightarrow> Inr (crash_reasons r, HockeyCrashGroupsResponse.total_pages r))"
  by (simp add: page_result_def groups_response_at_def split: sum.splits)
     (simp add: generate_groups_for_version_def)

lemma page_result_crashes:
  "page_result c (generate_in_group c app ver grp) p =
     (case crashes_response_at c app ver grp p of
        Inl e \<Rightarrow> Inl e
      | Inr r \<Rightarrow> Inr (crashes r, HockeyCrashesResponse.total_pages r))"
  by (simp add: page_result_def crashes_response_at_def split: sum.splits)
     (simp add: generate_in_group_def)

lemma page_items_groups:
  "page_items c (generate_groups_for_version c app ver) p =
     (case groups_response_at c app ver p of Inl e \<Rightarrow> [] | Inr r \<Rightarrow> crash_reasons r)"
  by (simp add: page_items_def page_result_groups split: sum.splits)

lemma page_items_crashes:
  "page_items c (generate_in_group c app ver grp) p =
     (case crashes_response_at c app ver grp p of Inl e \<Rightarrow> [] | Inr r \<Rightarrow> crashes r)"
  by (simp add: page_items_def page_result_crashes split: sum.splits)

lemma items_of_pages_groups:
  "items_of_pages c (generate_groups_for_version c app ver) p q = groups_on_pages c app ver p q"
  by (simp add: items_of_pages_def groups_on_pages_def page_items_groups[abs_def])

lemma items_of_pages_crashes:
  "items_of_pages c (generate_in_group c app ver grp) p q = crashes_on_pages c app ver grp p q"
  by (simp add: items_of_pages_def crashes_on_pages_def page_items_crashes[abs_def])

lemma continuing_page_groups:
  "continuing_page c (generate_groups_for_version c app ver) p \<longleftrightarrow>
     (\<exists>r. groups_response_at c app ver p = Inr r \<and> HockeyCrashGroupsResponse.total_pages r > p)"
  by (auto simp: continuing_page_def page_result_groups split: sum.splits)

lemma continuing_page_crashes:
  "continuing_page c (generate_in_group c app ver grp) p \<longleftrightarrow>
     (\<exists>r. crashes_response_at c app ver grp p = Inr r \<and> HockeyCrashesResponse.total_pages r > p)"
  by (auto simp: continuing_page_def page_result_crashes split: sum.splits)

section \<open>The concrete inputs, evaluated\<close>

lemma py_str_int_digits:
  "py_str_int 1 = ''1''" "py_str_int 2 = ''2''" "py_str_int 7 = ''7''"
  by code_simp+

lemma two_page_urls:
  "request_url (generate_groups_for_version two_page_client ''app'' 7) 1 =
     ''https://rink.hockeyapp.net/api/2/apps/app/app_versions/7/crash_reasons?per_page=100&order=desc&page=1''"
  "request_url (generate_groups_for_version two_page_client ''app'' 7) 2 =
     ''https://rink.hockeyapp.net/api/2/apps/app/app_versions/7/crash_reasons?per_page=100&order=desc&page=2''"
  by (simp_all add: generate_groups_for_version_def two_page_client_def py_str_int_digits)

lemma upto_1_2: "[1..2] = [1, 2::int]" "[1..1] = [1::int]" "[1..0] = ([]::int list)"
  by (simp_all add: upto.simps)

lemma budgets:
  "recursion_budget two_page_client = 989"
  "recursion_budget failing_client = 989"
  "recursion_budget failing_crashes_client = 989"
  "recursion_budget thousand_page_client = 989"
  "recursion_budget empty_client = 989"
  by (simp_all add: two_page_client_def failing_client_def failing_crashes_client_def
        thousand_page_client_def empty_client_def)

lemma two_page_results:
  "page_result two_page_client (generate_groups_for_version two_page_client ''app'' 7) 1 =
     Inr ([example_group 1 (Some ''boom'') None, example_group 2 None (Some ''run'')], 2)"
  "page_result two_page_client (generate_groups_for_version two_page_client ''app'' 7) 2 =
     Inr ([example_group 3 (Some ''bang'') None], 2)"
  by (simp_all add: page_result_def two_page_urls)
     (simp_all add: generate_groups_for_version_def two_page_client_def groups_envelope_def)

lemma in_group_urls:
  "request_url (generate_in_group two_page_client ''app'' 7 1) 1 =
     ''https://rink.hockeyapp.net/api/2/apps/app/app_versions/7/crash_reasons/1?per_page=100&order=desc&page=1''"
  "request_url (generate_in_group two_page_client ''app'' 7 1) 2 =
     ''https://rink.hockeyapp.net/api/2/apps/app/app_versions/7/crash_reasons/1?per_page=100&order=desc&page=2''"
  by (simp_all add: generate_in_group_def two_page_client_def py_str_int_digits)

lemma in_group_results:
  "page_result two_page_client (generate_in_group two_page_client ''app'' 7 1) 1 =
     Inr ([example_instance 11], 1)"
  by (simp add: page_result_def in_group_urls)
     (simp add: generate_in_group_def two_page_client_def)

lemma failing_urls:
  "request_url (generate_groups_for_version failing_client ''app'' 7) =
     request_url (generate_groups_for_version two_page_client ''app'' 7)"
  by (simp add: generate_groups_for_version_def failing_client_def)

lemma failing_results:
  "page_result failing_client (generate_groups_for_version failing_client ''app'' 7) 1 =
     Inr ([example_group 1 (Some ''boom'') None, example_group 2 None (Some ''run'')], 2)"
  "page_result failing_client (generate_groups_for_version failing_client ''app'' 7) 2 =
     Inl ''RequestFailed''"
  by (simp_all add: page_result_def failing_urls two_page_urls)
     (simp_all add: generate_groups_for_version_def failing_client_def two_page_client_def
        groups_envelope_def)

lemma failing_crashes_urls:
  "request_url (generate_in_group failing_crashes_client ''app'' 7 1) =
     request_url (generate_in_group two_page_client ''app'' 7 1)"
  by (simp add: generate_in_group_def failing_crashes_client_def)

lemma failing_crashes_results:
  "page_result failing_crashes_client (generate_in_group failing_crashes_client ''app'' 7 1) 1 =
     Inr ([example_instance 11], 2)"
  "page_result failing_crashes_client (generate_in_group failing_crashes_client ''app'' 7 1) 2 =
     Inl ''DecodeError''"
  by (simp_all add: page_result_def failing_crashes_urls in_group_urls)
     (simp_all add: generate_in_group_def failing_crashes_client_def two_page_client_def)

lemma empty_urls:
  "request_url (generate_groups_for_version empty_client ''app'' 7) =
     request_url (generate_groups_for_version two_page_client ''app'' 7)"
  by (simp add: generate_groups_for_version_def empty_client_def)

lemma empty_results:
  "page_result empty_client (generate_groups_for_version empty_client ''app'' 7) p = Inr ([], 0)"
  by (simp add: page_result_def generate_groups_for_version_def empty_client_def
        two_page_client_def groups_envelope_def)



section \<open>Pagination: the claims\<close>

text \<open>
  The continuation rule, while there is room for one more generator. Let the generator of
  page \<open>N\<close> run with \<open>d\<close> generators around it, and let the server answer for page \<open>N\<close>
  with the envelope \<open>r\<close>. The pulls yield the items of \<open>r\<close>, after the one request for
  page \<open>N\<close>. The pull after them goes on with page \<open>N + 1\<close> if the \<open>total_pages\<close> of \<open>r\<close>
  is above \<open>N\<close> and the next generator fits, raises \<open>RecursionError\<close> if it is above \<open>N\<close>
  and the next generator does not fit, and ends the sequence without a request otherwise.
\<close>

lemma continuation_generic:
  assumes "page_result c R N = Inr (xs, tot)" and "d < recursion_budget c"
  shows "pulls c R (length xs + 1) (Enter d N) log =
           (if tot > N
            then if d + 1 < recursion_budget c
                 then map_option (\<lambda>(ss, st). (map Yield xs @ ss, st))
                        (pulls c R 1 (Enter (d + 1) (N + 1)) (log @ [(request_url R N, 3)]))
                 else Some (map Yield xs @ [Raise RecursionError], Finished,
                            log @ [(request_url R N, 3)])
            else Some (map Yield xs @ [StopIteration], Finished, log @ [(request_url R N, 3)]))"
proof (cases "tot > N")
  case True
  with pulls_continuing_page[OF assms(1) True assms(2), of 0 log] show ?thesis
    by (simp add: gen_next_Enter)
next
  case False
  with assms have "final_page c R N" by (simp add: final_page_def)
  from pulls_final_page[OF this assms(2), of log] assms False show ?thesis
    by (simp add: page_items_def final_signal_def)
qed

lemma continuation_groups:
  assumes "groups_response_at c app ver N = Inr r" and "d < recursion_budget c"
  shows "pulls c (generate_groups_for_version c app ver) (length (crash_reasons r) + 1)
           (Enter d N) log =
           (if HockeyCrashGroupsResponse.total_pages r > N
            then if d + 1 < recursion_budget c
                 then map_option (\<lambda>(ss, st). (map Yield (crash_reasons r) @ ss, st))
                        (pulls c (generate_groups_for_version c app ver) 1 (Enter (d + 1) (N + 1))
                           (log @ [(request_url (generate_groups_for_version c app ver) N, 3)]))
                 else Some (map Yield (crash_reasons r) @ [Raise RecursionError], Finished,
                            log @ [(request_url (generate_groups_for_version c app ver) N, 3)])
            else Some (map Yield (crash_reasons r) @ [StopIteration], Finished,
                       log @ [(request_url (generate_groups_for_version c app ver) N, 3)]))"
  using continuation_generic[of c "generate_groups_for_version c app ver" N "crash_reasons r"
      "HockeyCrashGroupsResponse.total_pages r" d log] assms
  by (simp add: page_result_groups)

lemma continuation_crashes:
  assumes "crashes_response_at c app ver grp N = Inr r" and "d < recursion_budget c"
  shows "pulls c (generate_in_group c app ver grp) (length (crashes r) + 1) (Enter d N) log =
           (if HockeyCrashesResponse.total_pages r > N
            then if d + 1 < recursion_budget c
                 then map_option (\<lambda>(ss, st). (map Yield (crashes r) @ ss, st))
                        (pulls c (generate_in_group c app ver grp) 1 (Enter (d + 1) (N + 1))
                           (log @ [(request_url (generate_in_group c app ver grp) N, 3)]))
                 else Some (map Yield (crashes r) @ [Raise RecursionError], Finished,
                            log @ [(request_url (generate_in_group c app ver grp) N, 3)])
            else Some (map Yield (crashes r) @ [StopIteration], Finished,
                       log @ [(request_url (generate_in_group c app ver grp) N, 3)]))"
  using continuation_generic[of c "generate_in_group c app ver grp" N "crashes r"
      "HockeyCrashesResponse.total_pages r" d log] assms
  by (simp add: page_result_crashes)


lemma pulls_to_list:
  assumes "pulls c R (length xs + 1) fr log = Some (map Yield xs @ [StopIteration], fr', log')"
  shows "py_list c R fr log = Some (Inr xs, log')"
  using list_from_pulls[OF assms, of "[]"] by (simp add: py_list_def)





lemma run_to_end:
  assumes pages: "\<forall>p. 1 \<le> p \<and> p \<le> max 1 T \<longrightarrow> (\<exists>items. page_result c R p = Inr (items, T))"
    and room: "max 1 T \<le> int (recursion_budget c)"
  shows "pulls c R (length (items_of_pages c R 1 (max 1 T)) + 1) (Start 1) [] =
           Some (map Yield (items_of_pages c R 1 (max 1 T)) @ [StopIteration], Finished,
                 requests_of_pages R 1 (max 1 T))"
    and "py_list c R (Start 1) [] =
           Some (Inr (items_of_pages c R 1 (max 1 T)), requests_of_pages R 1 (max 1 T))"
    and "int (length (requests_of_pages R 1 (max 1 T))) = max 1 T"
proof -
  let ?L = "max 1 T"
  have cont: "\<forall>q. 1 \<le> q \<and> q < ?L \<longrightarrow> continuing_page c R q"
  proof (intro allI impI)
    fix q assume q: "1 \<le> q \<and> q < ?L"
    with pages obtain items where "page_result c R q = Inr (items, T)" by fastforce
    moreover from q have "q < T" by (simp add: max_def split: if_splits)
    ultimately show "continuing_page c R q" by (simp add: continuing_page_def)
  qed
  from pages obtain items where last: "page_result c R ?L = Inr (items, T)" by fastforce
  then have fin: "final_page c R ?L" by (simp add: final_page_def)
  from last have sig: "final_signal c R ?L = StopIteration" by (simp add: final_signal_def)
  have le: "1 \<le> ?L" by simp
  have fits: "0 + nat (?L - 1) < recursion_budget c" using room by linarith
  from pulls_run[OF cont fin le fits, of "[]"] sig
  show run: "pulls c R (length (items_of_pages c R 1 ?L) + 1) (Start 1) [] =
           Some (map Yield (items_of_pages c R 1 ?L) @ [StopIteration], Finished,
                 requests_of_pages R 1 ?L)"
    by simp
  from pulls_to_list[OF run]
  show "py_list c R (Start 1) [] = Some (Inr (items_of_pages c R 1 ?L), requests_of_pages R 1 ?L)" .
  show "int (length (requests_of_pages R 1 ?L)) = ?L"
    using length_requests_of_pages[of 1 ?L R] by simp
qed

text \<open>
  C5 (as amended). Let every page from 1 to \<open>max 1 T\<close> of the crash groups answer with an
  envelope whose \<open>total_pages\<close> is \<open>T\<close>, and let the interpreter have room for
  \<open>max 1 T\<close> nested generators. Then the lazy sequence of \<open>generate_groups_for_version\<close>
  ends: it yields the groups of the pages 1 to \<open>max 1 T\<close>, page after page, and stops;
  \<open>groups_for_version\<close> without \<open>max_count\<close> returns them; their number is the sum of
  the pages' item counts; and \<open>get\<close> is called once for each of these pages, in order,
  so \<open>max 1 T\<close> times: \<open>T\<close> times when \<open>T\<close> is at least 1, once when it is not. The
  same holds of \<open>generate_in_group\<close> and \<open>in_group\<close> for the crash instances. What
  happens without the room is not part of this statement.
\<close>

theorem pagination_terminates:
  "((\<forall>p. 1 \<le> p \<and> p \<le> max 1 T \<longrightarrow>
         (\<exists>r. groups_response_at c app ver p = Inr r \<and>
              HockeyCrashGroupsResponse.total_pages r = T)) \<and>
    max 1 T \<le> int (recursion_budget c)
    \<longrightarrow>
      pulls c (generate_groups_for_version c app ver)
        (length (groups_on_pages c app ver 1 (max 1 T)) + 1) (Start 1) [] =
        Some (map Yield (groups_on_pages c app ver 1 (max 1 T)) @ [StopIteration], Finished,
              requests_of_pages (generate_groups_for_version c app ver) 1 (max 1 T)) \<and>
      groups_for_version c app ver None [] =
        Some (Inr (groups_on_pages c app ver 1 (max 1 T)),
              requests_of_pages (generate_groups_for_version c app ver) 1 (max 1 T)) \<and>
      length (groups_on_pages c app ver 1 (max 1 T)) =
        sum_list (map (\<lambda>p. case groups_response_at c app ver p of
                               Inl e \<Rightarrow> 0
                             | Inr r \<Rightarrow> length (crash_reasons r)) [1..max 1 T]) \<and>
      int (length (requests_of_pages (generate_groups_for_version c app ver) 1 (max 1 T))) =
        max 1 T) \<and>
   ((\<forall>p. 1 \<le> p \<and> p \<le> max 1 U \<longrightarrow>
         (\<exists>r. crashes_response_at c app ver grp p = Inr r \<and>
              HockeyCrashesResponse.total_pages r = U)) \<and>
    max 1 U \<le> int (recursion_budget c)
    \<longrightarrow>
      pulls c (generate_in_group c app ver grp)
        (length (crashes_on_pages c app ver grp 1 (max 1 U)) + 1) (Start 1) [] =
        Some (map Yield (crashes_on_pages c app ver grp 1 (max 1 U)) @ [StopIteration], Finished,
              requests_of_pages (generate_in_group c app ver grp) 1 (max 1 U)) \<and>
      in_group c app ver grp [] =
        Some (Inr (crashes_on_pages c app ver grp 1 (max 1 U)),
              requests_of_pages (generate_in_group c app ver grp) 1 (max 1 U)) \<and>
      length (crashes_on_pages c app ver grp 1 (max 1 U)) =
        sum_list (map (\<lambda>p. case crashes_response_at c app ver grp p of
                               Inl e \<Rightarrow> 0
                             | Inr r \<Rightarrow> length (crashes r)) [1..max 1 U]) \<and>
      int (length (requests_of_pages (generate_in_group c app ver grp) 1 (max 1 U))) =
        max 1 U)"
proof (intro conjI impI)
  let ?R = "generate_groups_for_version c app ver"
  assume a: "(\<forall>p. 1 \<le> p \<and> p \<le> max 1 T \<longrightarrow>
         (\<exists>r. groups_response_at c app ver p = Inr r \<and>
              HockeyCrashGroupsResponse.total_pages r = T)) \<and>
    max 1 T \<le> int (recursion_budget c)"
  then have pages: "\<forall>p. 1 \<le> p \<and> p \<le> max 1 T \<longrightarrow> (\<exists>items. page_result c ?R p = Inr (items, T))"
    by (auto simp: page_result_groups)
  from a have room: "max 1 T \<le> int (recursion_budget c)" by simp
  from run_to_end(1)[OF pages room]
  show "pulls c ?R (length (groups_on_pages c app ver 1 (max 1 T)) + 1) (Start 1) [] =
        Some (map Yield (groups_on_pages c app ver 1 (max 1 T)) @ [StopIteration], Finished,
              requests_of_pages ?R 1 (max 1 T))"
    by (simp only: items_of_pages_groups)
  from run_to_end(2)[OF pages room]
  show "groups_for_version c app ver None [] =
        Some (Inr (groups_on_pages c app ver 1 (max 1 T)), requests_of_pages ?R 1 (max 1 T))"
    by (simp add: items_of_pages_groups groups_for_version_def loop_None_eq_list py_list_def)
  from run_to_end(3)[OF pages room]
  show "int (length (requests_of_pages ?R 1 (max 1 T))) = max 1 T" .
  show "length (groups_on_pages c app ver 1 (max 1 T)) =
        sum_list (map (\<lambda>p. case groups_response_at c app ver p of
                               Inl e \<Rightarrow> 0
                             | Inr r \<Rightarrow> length (crash_reasons r)) [1..max 1 T])"
    by (simp add: groups_on_pages_def length_concat comp_def sum.case_distrib[of length]
          cong: sum.case_cong)
next
  let ?R = "generate_in_group c app ver grp"
  assume a: "(\<forall>p. 1 \<le> p \<and> p \<le> max 1 U \<longrightarrow>
         (\<exists>r. crashes_response_at c app ver grp p = Inr r \<and>
              HockeyCrashesResponse.total_pages r = U)) \<and>
    max 1 U \<le> int (recursion_budget c)"
  then have pages: "\<forall>p. 1 \<le> p \<and> p \<le> max 1 U \<longrightarrow> (\<exists>items. page_result c ?R p = Inr (items, U))"
    by (auto simp: page_result_crashes)
  from a have room: "max 1 U \<le> int (recursion_budget c)" by simp
  from run_to_end(1)[OF pages room]
  show "pulls c ?R (length (crashes_on_pages c app ver grp 1 (max 1 U)) + 1) (Start 1) [] =
        Some (map Yield (crashes_on_pages c app ver grp 1 (max 1 U)) @ [StopIteration], Finished,
              requests_of_pages ?R 1 (max 1 U))"
    by (simp only: items_of_pages_crashes)
  from run_to_end(2)[OF pages room]
  show "in_group c app ver grp [] =
        Some (Inr (crashes_on_pages c app ver grp 1 (max 1 U)), requests_of_pages ?R 1 (max 1 U))"
    by (simp add: items_of_pages_crashes in_group_def)
  from run_to_end(3)[OF pages room]
  show "int (length (requests_of_pages ?R 1 (max 1 U))) = max 1 U" .
  show "length (crashes_on_pages c app ver grp 1 (max 1 U)) =
        sum_list (map (\<lambda>p. case crashes_response_at c app ver grp p of
                               Inl e \<Rightarrow> 0
                             | Inr r \<Rightarrow> length (crashes r)) [1..max 1 U])"
    by (simp add: crashes_on_pages_def length_concat comp_def sum.case_distrib[of length]
          cong: sum.case_cong)
qed

lemma two_page_responses:
  "groups_response_at two_page_client ''app'' 7 1 =
     Inr (groups_envelope
            [example_group 1 (Some ''boom'') None, example_group 2 None (Some ''run'')] 1 2)"
  "groups_response_at two_page_client ''app'' 7 2 =
     Inr (groups_envelope [example_group 3 (Some ''bang'') None] 2 2)"
  by (simp_all add: groups_response_at_def two_page_urls)
     (simp_all add: two_page_client_def)

lemma in_group_responses:
  "\<exists>r. crashes_response_at two_page_client ''app'' 7 1 1 = Inr r \<and>
       HockeyCrashesResponse.total_pages r = 1 \<and> crashes r = [example_instance 11]"
  by (simp add: crashes_response_at_def in_group_urls) (simp add: two_page_client_def)

theorem pagination_terminates_witness:
  "pulls two_page_client (generate_groups_for_version two_page_client ''app'' 7) 4 (Start 1) [] =
     Some ([Yield (example_group 1 (Some ''boom'') None), Yield (example_group 2 None (Some ''run'')),
            Yield (example_group 3 (Some ''bang'') None), StopIteration], Finished,
           [(''https://rink.hockeyapp.net/api/2/apps/app/app_versions/7/crash_reasons?per_page=100&order=desc&page=1'', 3),
            (''https://rink.hockeyapp.net/api/2/apps/app/app_versions/7/crash_reasons?per_page=100&order=desc&page=2'', 3)]) \<and>
   groups_for_version two_page_client ''app'' 7 None [] =
     Some (Inr [example_group 1 (Some ''boom'') None, example_group 2 None (Some ''run''),
                example_group 3 (Some ''bang'') None],
           [(''https://rink.hockeyapp.net/api/2/apps/app/app_versions/7/crash_reasons?per_page=100&order=desc&page=1'', 3),
            (''https://rink.hockeyapp.net/api/2/apps/app/app_versions/7/crash_reasons?per_page=100&order=desc&page=2'', 3)]) \<and>
   in_group two_page_client ''app'' 7 1 [] =
     Some (Inr [example_instance 11],
           [(''https://rink.hockeyapp.net/api/2/apps/app/app_versions/7/crash_reasons/1?per_page=100&order=desc&page=1'', 3)])"
proof -
  let ?R = "generate_groups_for_version two_page_client ''app'' 7"
  let ?Q = "generate_in_group two_page_client ''app'' 7 1"
  have h: "(\<forall>p. 1 \<le> p \<and> p \<le> max 1 2 \<longrightarrow>
         (\<exists>r. groups_response_at two_page_client ''app'' 7 p = Inr r \<and>
              HockeyCrashGroupsResponse.total_pages r = 2)) \<and>
      max 1 2 \<le> int (recursion_budget two_page_client)"
  proof (intro conjI allI impI)
    fix p :: int assume "1 \<le> p \<and> p \<le> max 1 2"
    then have "p = 1 \<or> p = 2" by auto
    then show "\<exists>r. groups_response_at two_page_client ''app'' 7 p = Inr r \<and>
              HockeyCrashGroupsResponse.total_pages r = 2"
      by (auto simp: two_page_responses groups_envelope_def)
  qed (simp add: budgets)
  have k: "(\<forall>p. 1 \<le> p \<and> p \<le> max 1 1 \<longrightarrow>
         (\<exists>r. crashes_response_at two_page_client ''app'' 7 1 p = Inr r \<and>
              HockeyCrashesResponse.total_pages r = 1)) \<and>
      max 1 1 \<le> int (recursion_budget two_page_client)"
  proof (intro conjI allI impI)
    fix p :: int assume "1 \<le> p \<and> p \<le> max 1 1"
    then have "p = 1" by auto
    then show "\<exists>r. crashes_response_at two_page_client ''app'' 7 1 p = Inr r \<and>
              HockeyCrashesResponse.total_pages r = 1"
      using in_group_responses by auto
  qed (simp add: budgets)
  have i: "groups_on_pages two_page_client ''app'' 7 1 2 =
      [example_group 1 (Some ''boom'') None, example_group 2 None (Some ''run''),
       example_group 3 (Some ''bang'') None]"
    by (simp add: groups_on_pages_def upto_1_2 two_page_responses groups_envelope_def)
  have j: "crashes_on_pages two_page_client ''app'' 7 1 1 1 = [example_instance 11]"
    using in_group_responses by (auto simp: crashes_on_pages_def upto_1_2)
  have r: "requests_of_pages ?R 1 2 =
      [(''https://rink.hockeyapp.net/api/2/apps/app/app_versions/7/crash_reasons?per_page=100&order=desc&page=1'', 3),
       (''https://rink.hockeyapp.net/api/2/apps/app/app_versions/7/crash_reasons?per_page=100&order=desc&page=2'', 3)]"
    by (simp add: requests_of_pages_def upto_1_2 two_page_urls)
  have q: "requests_of_pages ?Q 1 1 =
      [(''https://rink.hockeyapp.net/api/2/apps/app/app_versions/7/crash_reasons/1?per_page=100&order=desc&page=1'', 3)]"
    by (simp add: requests_of_pages_def upto_1_2 in_group_urls)
  have m: "max 1 (2::int) = 2" "max 1 (1::int) = 1" by simp_all
  have n: "length [example_group 1 (Some ''boom'') None, example_group 2 None (Some ''run''),
       example_group 3 (Some ''bang'') None] + 1 = 4" by simp
  from pagination_terminates[of 2 two_page_client "''app''" 7 1 1] h k
  have "pulls two_page_client ?R (length (groups_on_pages two_page_client ''app'' 7 1 (max 1 2)) + 1)
          (Start 1) [] =
        Some (map Yield (groups_on_pages two_page_client ''app'' 7 1 (max 1 2)) @ [StopIteration],
              Finished, requests_of_pages ?R 1 (max 1 2)) \<and>
      groups_for_version two_page_client ''app'' 7 None [] =
        Some (Inr (groups_on_pages two_page_client ''app'' 7 1 (max 1 2)),
              requests_of_pages ?R 1 (max 1 2)) \<and>
      in_group two_page_client ''app'' 7 1 [] =
        Some (Inr (crashes_on_pages two_page_client ''app'' 7 1 1 (max 1 1)),
              requests_of_pages ?Q 1 (max 1 1))"
    by blast
  then show ?thesis
    by (simp only: m i j r q n list.map append_Cons append_Nil)
qed

text \<open>
  C5 as first stated fails: on a server whose pages are empty and all report
  \<open>total_pages = 0\<close>, the sequence ends with no item after one call of \<open>get\<close>, not
  after zero calls.
\<close>

theorem zero_total_pages_one_fetch:
  "(\<forall>p. groups_response_at empty_client ''app'' 7 p = Inr (groups_envelope [] 1 0)) \<and>
   HockeyCrashGroupsResponse.total_pages (groups_envelope [] 1 0) = 0 \<and>
   groups_for_version empty_client ''app'' 7 None [] =
     Some (Inr [],
           [(''https://rink.hockeyapp.net/api/2/apps/app/app_versions/7/crash_reasons?per_page=100&order=desc&page=1'', 3)]) \<and>
   int (length
     [(''https://rink.hockeyapp.net/api/2/apps/app/app_versions/7/crash_reasons?per_page=100&order=desc&page=1'', 3::nat)])
     \<noteq> 0"
proof -
  let ?R = "generate_groups_for_version empty_client ''app'' 7"
  have f: "final_page empty_client ?R 1" by (simp add: final_page_def empty_results)
  have i: "page_items empty_client ?R 1 = []" by (simp add: page_items_def empty_results)
  have s: "final_signal empty_client ?R 1 = StopIteration"
    by (simp add: final_signal_def empty_results)
  have room: "0 < recursion_budget empty_client" by (simp add: budgets)
  from pulls_final_page[OF f room, of "[]"]
  have "pulls empty_client ?R (length ([]::HockeyCrashGroup list) + 1) (Start 1) [] =
      Some (map Yield [] @ [StopIteration], Finished,
        [(''https://rink.hockeyapp.net/api/2/apps/app/app_versions/7/crash_reasons?per_page=100&order=desc&page=1'', 3)])"
    by (simp only: i s empty_urls two_page_urls append_Nil list.map list.size)
  from pulls_to_list[OF this]
  have "groups_for_version empty_client ''app'' 7 None [] =
     Some (Inr [],
           [(''https://rink.hockeyapp.net/api/2/apps/app/app_versions/7/crash_reasons?per_page=100&order=desc&page=1'', 3)])"
    by (simp add: groups_for_version_def loop_None_eq_list py_list_def)
  moreover have "groups_response_at empty_client ''app'' 7 p = Inr (groups_envelope [] 1 0)" for p
    by (simp add: groups_response_at_def empty_client_def two_page_client_def)
  ultimately show ?thesis by (simp add: groups_envelope_def)
qed

lemma run_to_failure:
  assumes cont: "\<forall>q. 1 \<le> q \<and> q < N \<longrightarrow> continuing_page c R q"
    and le: "1 \<le> N"
    and room: "N \<le> int (recursion_budget c)"
    and res: "page_result c R N = Inl e"
  shows "pulls c R (length (items_of_pages c R 1 (N - 1)) + 1) (Start 1) [] =
           Some (map Yield (items_of_pages c R 1 (N - 1)) @ [Raise (Collaborator e)], Finished,
                 requests_of_pages R 1 N)"
    and "py_list c R (Start 1) [] = Some (Inl (Collaborator e), requests_of_pages R 1 N)"
    and "groups_for_version_loop c R None [] (Start 1) [] =
           Some (Inl (Collaborator e), requests_of_pages R 1 N)"
    and "\<forall>k. int (length (items_of_pages c R 1 (N - 1))) < k \<longrightarrow>
            groups_for_version_loop c R (Some k) [] (Start 1) [] =
              Some (Inl (Collaborator e), requests_of_pages R 1 N)"
proof -
  from res have fin: "final_page c R N" by (simp add: final_page_def)
  from res have sig: "final_signal c R N = Raise (Collaborator e)" by (simp add: final_signal_def)
  note items = items_of_pages_failed_last[OF res le]
  have fits: "0 + nat (N - 1) < recursion_budget c" using le room by linarith
  from pulls_run[OF cont fin le fits, of "[]"]
  show run: "pulls c R (length (items_of_pages c R 1 (N - 1)) + 1) (Start 1) [] =
           Some (map Yield (items_of_pages c R 1 (N - 1)) @ [Raise (Collaborator e)], Finished,
                 requests_of_pages R 1 N)"
    by (simp only: items sig append_Nil)
  show lst: "py_list c R (Start 1) [] = Some (Inl (Collaborator e), requests_of_pages R 1 N)"
    using list_from_pulls[OF run, of "[]"] by (simp add: py_list_def)
  show "groups_for_version_loop c R None [] (Start 1) [] =
      Some (Inl (Collaborator e), requests_of_pages R 1 N)"
    using lst by (simp add: loop_None_eq_list py_list_def)
  show "\<forall>k. int (length (items_of_pages c R 1 (N - 1))) < k \<longrightarrow>
            groups_for_version_loop c R (Some k) [] (Start 1) [] =
              Some (Inl (Collaborator e), requests_of_pages R 1 N)"
  proof (intro allI impI)
    fix k assume "int (length (items_of_pages c R 1 (N - 1))) < k"
    then have "length (items_of_pages c R 1 (N - 1)) < nat (max 1 k)" by simp
    from take_from_pulls[OF run _ this]
    show "groups_for_version_loop c R (Some k) [] (Start 1) [] =
              Some (Inl (Collaborator e), requests_of_pages R 1 N)"
      by (simp add: groups_for_version_loop_max_count)
  qed
qed

lemma groups_response_failed:
  "groups_response_at c app ver N = Inl e \<longleftrightarrow>
     get c (request_url (generate_groups_for_version c app ver) N) 3 = Inl e \<or>
     (\<exists>body. get c (request_url (generate_groups_for_version c app ver) N) 3 = Inr body \<and>
             deserialize_groups c body = Inl e)"
  by (auto simp: groups_response_at_def split: sum.splits)

lemma crashes_response_failed:
  "crashes_response_at c app ver grp N = Inl e \<longleftrightarrow>
     get c (request_url (generate_in_group c app ver grp) N) 3 = Inl e \<or>
     (\<exists>body. get c (request_url (generate_in_group c app ver grp) N) 3 = Inr body \<and>
             deserialize_crashes c body = Inl e)"
  by (auto simp: crashes_response_at_def split: sum.splits)

text \<open>
  C7. Let the pages of crash groups before page \<open>N\<close> answer with envelopes that announce a
  later page each, and let page \<open>N\<close> be fetched and fail with \<open>e\<close>, in \<open>get\<close> or in the
  decoding. Then \<open>generate_groups_for_version\<close> yields the groups of the pages before \<open>N\<close>
  and raises \<open>e\<close> itself, with the generator finished and no item of page \<open>N\<close> yielded;
  and \<open>groups_for_version\<close>, without \<open>max_count\<close> or with one above the number of groups
  yielded, ends in \<open>e\<close> and returns no list. The same holds of \<open>generate_in_group\<close> and
  \<open>in_group\<close> for the crash instances.
\<close>

theorem failure_propagates:
  "((\<forall>q. 1 \<le> q \<and> q < N \<longrightarrow>
         (\<exists>r. groups_response_at c app ver q = Inr r \<and>
              HockeyCrashGroupsResponse.total_pages r > q)) \<and>
    1 \<le> N \<and> N \<le> int (recursion_budget c) \<and>
    (get c (request_url (generate_groups_for_version c app ver) N) 3 = Inl e \<or>
     (\<exists>body. get c (request_url (generate_groups_for_version c app ver) N) 3 = Inr body \<and>
             deserialize_groups c body = Inl e))
    \<longrightarrow>
      pulls c (generate_groups_for_version c app ver)
        (length (groups_on_pages c app ver 1 (N - 1)) + 1) (Start 1) [] =
        Some (map Yield (groups_on_pages c app ver 1 (N - 1)) @ [Raise (Collaborator e)],
              Finished, requests_of_pages (generate_groups_for_version c app ver) 1 N) \<and>
      groups_for_version c app ver None [] =
        Some (Inl (Collaborator e),
              requests_of_pages (generate_groups_for_version c app ver) 1 N) \<and>
      (\<forall>k. int (length (groups_on_pages c app ver 1 (N - 1))) < k \<longrightarrow>
         groups_for_version c app ver (Some k) [] =
           Some (Inl (Collaborator e),
                 requests_of_pages (generate_groups_for_version c app ver) 1 N))) \<and>
   ((\<forall>q. 1 \<le> q \<and> q < M \<longrightarrow>
         (\<exists>r. crashes_response_at c app ver grp q = Inr r \<and>
              HockeyCrashesResponse.total_pages r > q)) \<and>
    1 \<le> M \<and> M \<le> int (recursion_budget c) \<and>
    (get c (request_url (generate_in_group c app ver grp) M) 3 = Inl e' \<or>
     (\<exists>body. get c (request_url (generate_in_group c app ver grp) M) 3 = Inr body \<and>
             deserialize_crashes c body = Inl e'))
    \<longrightarrow>
      pulls c (generate_in_group c app ver grp)
        (length (crashes_on_pages c app ver grp 1 (M - 1)) + 1) (Start 1) [] =
        Some (map Yield (crashes_on_pages c app ver grp 1 (M - 1)) @ [Raise (Collaborator e')],
              Finished, requests_of_pages (generate_in_group c app ver grp) 1 M) \<and>
      in_group c app ver grp [] =
        Some (Inl (Collaborator e'),
              requests_of_pages (generate_in_group c app ver grp) 1 M))"
proof (intro conjI impI)
  let ?R = "generate_groups_for_version c app ver"
  assume a: "(\<forall>q. 1 \<le> q \<and> q < N \<longrightarrow>
         (\<exists>r. groups_response_at c app ver q = Inr r \<and>
              HockeyCrashGroupsResponse.total_pages r > q)) \<and>
    1 \<le> N \<and> N \<le> int (recursion_budget c) \<and>
    (get c (request_url ?R N) 3 = Inl e \<or>
     (\<exists>body. get c (request_url ?R N) 3 = Inr body \<and> deserialize_groups c body = Inl e))"
  then have cont: "\<forall>q. 1 \<le> q \<and> q < N \<longrightarrow> continuing_page c ?R q"
    by (simp add: continuing_page_groups)
  from a have le: "1 \<le> N" and room: "N \<le> int (recursion_budget c)" by simp_all
  from a have "groups_response_at c app ver N = Inl e" by (simp add: groups_response_failed)
  then have res: "page_result c ?R N = Inl e" by (simp add: page_result_groups)
  note run = run_to_failure[OF cont le room res, unfolded items_of_pages_groups]
  from run(1)
  show "pulls c ?R (length (groups_on_pages c app ver 1 (N - 1)) + 1) (Start 1) [] =
        Some (map Yield (groups_on_pages c app ver 1 (N - 1)) @ [Raise (Collaborator e)],
              Finished, requests_of_pages ?R 1 N)" .
  from run(3)
  show "groups_for_version c app ver None [] = Some (Inl (Collaborator e), requests_of_pages ?R 1 N)"
    by (simp add: groups_for_version_def)
  from run(4)
  show "\<forall>k. int (length (groups_on_pages c app ver 1 (N - 1))) < k \<longrightarrow>
         groups_for_version c app ver (Some k) [] =
           Some (Inl (Collaborator e), requests_of_pages ?R 1 N)"
    by (simp add: groups_for_version_def)
next
  let ?R = "generate_in_group c app ver grp"
  assume a: "(\<forall>q. 1 \<le> q \<and> q < M \<longrightarrow>
         (\<exists>r. crashes_response_at c app ver grp q = Inr r \<and>
              HockeyCrashesResponse.total_pages r > q)) \<and>
    1 \<le> M \<and> M \<le> int (recursion_budget c) \<and>
    (get c (request_url ?R M) 3 = Inl e' \<or>
     (\<exists>body. get c (request_url ?R M) 3 = Inr body \<and> deserialize_crashes c body = Inl e'))"
  then have cont: "\<forall>q. 1 \<le> q \<and> q < M \<longrightarrow> continuing_page c ?R q"
    by (simp add: continuing_page_crashes)
  from a have le: "1 \<le> M" and room: "M \<le> int (recursion_budget c)" by simp_all
  from a have "crashes_response_at c app ver grp M = Inl e'" by (simp add: crashes_response_failed)
  then have res: "page_result c ?R M = Inl e'" by (simp add: page_result_crashes)
  note run = run_to_failure[OF cont le room res, unfolded items_of_pages_crashes]
  from run(1)
  show "pulls c ?R (length (crashes_on_pages c app ver grp 1 (M - 1)) + 1) (Start 1) [] =
        Some (map Yield (crashes_on_pages c app ver grp 1 (M - 1)) @ [Raise (Collaborator e')],
              Finished, requests_of_pages ?R 1 M)" .
  from run(2)
  show "in_group c app ver grp [] = Some (Inl (Collaborator e'), requests_of_pages ?R 1 M)"
    by (simp add: in_group_def)
qed

lemma failing_responses:
  "groups_response_at failing_client ''app'' 7 1 =
     Inr (groups_envelope
            [example_group 1 (Some ''boom'') None, example_group 2 None (Some ''run'')] 1 2)"
  by (simp add: groups_response_at_def failing_urls two_page_urls)
     (simp add: failing_client_def two_page_client_def)

lemma failing_crashes_responses:
  "\<exists>r. crashes_response_at failing_crashes_client ''app'' 7 1 1 = Inr r \<and>
       HockeyCrashesResponse.total_pages r = 2 \<and> crashes r = [example_instance 11]"
  by (simp add: crashes_response_at_def failing_crashes_urls in_group_urls)
     (simp add: failing_crashes_client_def two_page_client_def)

theorem failure_propagates_witness:
  "pulls failing_client (generate_groups_for_version failing_client ''app'' 7) 3 (Start 1) [] =
     Some ([Yield (example_group 1 (Some ''boom'') None), Yield (example_group 2 None (Some ''run'')),
            Raise (Collaborator ''RequestFailed'')], Finished,
           [(''https://rink.hockeyapp.net/api/2/apps/app/app_versions/7/crash_reasons?per_page=100&order=desc&page=1'', 3),
            (''https://rink.hockeyapp.net/api/2/apps/app/app_versions/7/crash_reasons?per_page=100&order=desc&page=2'', 3)]) \<and>
   groups_for_version failing_client ''app'' 7 None [] =
     Some (Inl (Collaborator ''RequestFailed''),
           [(''https://rink.hockeyapp.net/api/2/apps/app/app_versions/7/crash_reasons?per_page=100&order=desc&page=1'', 3),
            (''https://rink.hockeyapp.net/api/2/apps/app/app_versions/7/crash_reasons?per_page=100&order=desc&page=2'', 3)]) \<and>
   groups_for_version failing_client ''app'' 7 (Some 3) [] =
     Some (Inl (Collaborator ''RequestFailed''),
           [(''https://rink.hockeyapp.net/api/2/apps/app/app_versions/7/crash_reasons?per_page=100&order=desc&page=1'', 3),
            (''https://rink.hockeyapp.net/api/2/apps/app/app_versions/7/crash_reasons?per_page=100&order=desc&page=2'', 3)]) \<and>
   pulls failing_crashes_client (generate_in_group failing_crashes_client ''app'' 7 1) 2 (Start 1) [] =
     Some ([Yield (example_instance 11), Raise (Collaborator ''DecodeError'')], Finished,
           [(''https://rink.hockeyapp.net/api/2/apps/app/app_versions/7/crash_reasons/1?per_page=100&order=desc&page=1'', 3),
            (''https://rink.hockeyapp.net/api/2/apps/app/app_versions/7/crash_reasons/1?per_page=100&order=desc&page=2'', 3)]) \<and>
   in_group failing_crashes_client ''app'' 7 1 [] =
     Some (Inl (Collaborator ''DecodeError''),
           [(''https://rink.hockeyapp.net/api/2/apps/app/app_versions/7/crash_reasons/1?per_page=100&order=desc&page=1'', 3),
            (''https://rink.hockeyapp.net/api/2/apps/app/app_versions/7/crash_reasons/1?per_page=100&order=desc&page=2'', 3)])"
proof -
  let ?R = "generate_groups_for_version failing_client ''app'' 7"
  let ?Q = "generate_in_group failing_crashes_client ''app'' 7 1"
  have g: "(\<forall>q. 1 \<le> q \<and> q < 2 \<longrightarrow>
         (\<exists>r. groups_response_at failing_client ''app'' 7 q = Inr r \<and>
              HockeyCrashGroupsResponse.total_pages r > q)) \<and>
      (1::int) \<le> 2 \<and> 2 \<le> int (recursion_budget failing_client) \<and>
      (get failing_client (request_url ?R 2) 3 = Inl ''RequestFailed'' \<or>
       (\<exists>body. get failing_client (request_url ?R 2) 3 = Inr body \<and>
               deserialize_groups failing_client body = Inl ''RequestFailed''))"
  proof (intro conjI allI impI)
    fix q :: int assume "1 \<le> q \<and> q < 2"
    then have "q = 1" by simp
    then show "\<exists>r. groups_response_at failing_client ''app'' 7 q = Inr r \<and>
              HockeyCrashGroupsResponse.total_pages r > q"
      by (simp add: failing_responses groups_envelope_def)
  next
    show "get failing_client (request_url ?R 2) 3 = Inl ''RequestFailed'' \<or>
       (\<exists>body. get failing_client (request_url ?R 2) 3 = Inr body \<and>
               deserialize_groups failing_client body = Inl ''RequestFailed'')"
      by (simp add: failing_urls two_page_urls) (simp add: failing_client_def)
  qed (simp_all add: budgets)
  have h: "(\<forall>q. 1 \<le> q \<and> q < 2 \<longrightarrow>
         (\<exists>r. crashes_response_at failing_crashes_client ''app'' 7 1 q = Inr r \<and>
              HockeyCrashesResponse.total_pages r > q)) \<and>
      (1::int) \<le> 2 \<and> 2 \<le> int (recursion_budget failing_crashes_client) \<and>
      (get failing_crashes_client (request_url ?Q 2) 3 = Inl ''DecodeError'' \<or>
       (\<exists>body. get failing_crashes_client (request_url ?Q 2) 3 = Inr body \<and>
               deserialize_crashes failing_crashes_client body = Inl ''DecodeError''))"
  proof (intro conjI allI impI)
    fix q :: int assume "1 \<le> q \<and> q < 2"
    then have "q = 1" by simp
    then show "\<exists>r. crashes_response_at failing_crashes_client ''app'' 7 1 q = Inr r \<and>
              HockeyCrashesResponse.total_pages r > q"
      using failing_crashes_responses by auto
  next
    show "get failing_crashes_client (request_url ?Q 2) 3 = Inl ''DecodeError'' \<or>
       (\<exists>body. get failing_crashes_client (request_url ?Q 2) 3 = Inr body \<and>
               deserialize_crashes failing_crashes_client body = Inl ''DecodeError'')"
      by (simp add: failing_crashes_urls in_group_urls)
         (simp add: failing_crashes_client_def two_page_client_def)
  qed (simp_all add: budgets)
  have i: "groups_on_pages failing_client ''app'' 7 1 (2 - 1) =
      [example_group 1 (Some ''boom'') None, example_group 2 None (Some ''run'')]"
    by (simp add: groups_on_pages_def upto_1_2 failing_responses groups_envelope_def)
  have j: "crashes_on_pages failing_crashes_client ''app'' 7 1 1 (2 - 1) = [example_instance 11]"
    using failing_crashes_responses by (auto simp: crashes_on_pages_def upto_1_2)
  have r: "requests_of_pages ?R 1 2 =
      [(''https://rink.hockeyapp.net/api/2/apps/app/app_versions/7/crash_reasons?per_page=100&order=desc&page=1'', 3),
       (''https://rink.hockeyapp.net/api/2/apps/app/app_versions/7/crash_reasons?per_page=100&order=desc&page=2'', 3)]"
    by (simp add: requests_of_pages_def upto_1_2 failing_urls two_page_urls)
  have q: "requests_of_pages ?Q 1 2 =
      [(''https://rink.hockeyapp.net/api/2/apps/app/app_versions/7/crash_reasons/1?per_page=100&order=desc&page=1'', 3),
       (''https://rink.hockeyapp.net/api/2/apps/app/app_versions/7/crash_reasons/1?per_page=100&order=desc&page=2'', 3)]"
    by (simp add: requests_of_pages_def upto_1_2 failing_crashes_urls in_group_urls)
  have n: "length [example_group 1 (Some ''boom'') None, example_group 2 None (Some ''run'')] + 1 = 3"
    "length [example_instance 11] + 1 = 2"
    by simp_all
  have k: "int (length [example_group 1 (Some ''boom'') None, example_group 2 None (Some ''run'')]) < 3"
    by simp
  from failure_propagates[of 2 failing_client "''app''" 7 "''RequestFailed''" 2 1 "''DecodeError''"] g
  have a: "pulls failing_client ?R (length (groups_on_pages failing_client ''app'' 7 1 (2 - 1)) + 1)
          (Start 1) [] =
        Some (map Yield (groups_on_pages failing_client ''app'' 7 1 (2 - 1)) @
                [Raise (Collaborator ''RequestFailed'')],
              Finished, requests_of_pages ?R 1 2) \<and>
      groups_for_version failing_client ''app'' 7 None [] =
        Some (Inl (Collaborator ''RequestFailed''), requests_of_pages ?R 1 2) \<and>
      (\<forall>k. int (length (groups_on_pages failing_client ''app'' 7 1 (2 - 1))) < k \<longrightarrow>
         groups_for_version failing_client ''app'' 7 (Some k) [] =
           Some (Inl (Collaborator ''RequestFailed''), requests_of_pages ?R 1 2))"
    by blast
  from failure_propagates[of 2 failing_crashes_client "''app''" 7 "''RequestFailed''" 2 1 "''DecodeError''"] h
  have b: "pulls failing_crashes_client ?Q
          (length (crashes_on_pages failing_crashes_client ''app'' 7 1 1 (2 - 1)) + 1) (Start 1) [] =
        Some (map Yield (crashes_on_pages failing_crashes_client ''app'' 7 1 1 (2 - 1)) @
                [Raise (Collaborator ''DecodeError'')],
              Finished, requests_of_pages ?Q 1 2) \<and>
      in_group failing_crashes_client ''app'' 7 1 [] =
        Some (Inl (Collaborator ''DecodeError''), requests_of_pages ?Q 1 2)"
    by blast
  from a k have a': "pulls failing_client ?R 3 (Start 1) [] =
        Some ([Yield (example_group 1 (Some ''boom'') None),
               Yield (example_group 2 None (Some ''run'')),
               Raise (Collaborator ''RequestFailed'')], Finished, requests_of_pages ?R 1 2) \<and>
      groups_for_version failing_client ''app'' 7 None [] =
        Some (Inl (Collaborator ''RequestFailed''), requests_of_pages ?R 1 2) \<and>
      groups_for_version failing_client ''app'' 7 (Some 3) [] =
        Some (Inl (Collaborator ''RequestFailed''), requests_of_pages ?R 1 2)"
    by (simp only: i n list.map append_Cons append_Nil)
  from b have b': "pulls failing_crashes_client ?Q 2 (Start 1) [] =
        Some ([Yield (example_instance 11), Raise (Collaborator ''DecodeError'')], Finished,
              requests_of_pages ?Q 1 2) \<and>
      in_group failing_crashes_client ''app'' 7 1 [] =
        Some (Inl (Collaborator ''DecodeError''), requests_of_pages ?Q 1 2)"
    by (simp only: j n list.map append_Cons append_Nil)
  from a' b' show ?thesis
    by (simp only: r q)
qed

text \<open>
  C6. Every call of \<open>get\<close> that a step of either generator makes has the retry count 3 and
  the URL of the spec, for groups and for instances, with the pages asked for in order:
  from the page the suspended generator would ask for next, one by one.
\<close>

theorem request_urls:
  "(gen_next c (generate_groups_for_version c app ver) fr log = Some (s, fr', log') \<longrightarrow>
      (\<exists>last. log' = log @
         map (\<lambda>page.
                (api_base_url c @ ''/'' @ app @ ''/app_versions/'' @ py_str_int ver @
                   ''/crash_reasons?per_page=100&order=desc&page='' @ py_str_int page, 3))
             [next_page fr..last])) \<and>
   (gen_next c (generate_in_group c app ver grp) fr2 log2 = Some (s2, fr2', log2') \<longrightarrow>
      (\<exists>last. log2' = log2 @
         map (\<lambda>page.
                (api_base_url c @ ''/'' @ app @ ''/app_versions/'' @ py_str_int ver @
                   ''/crash_reasons/'' @ py_str_int grp @
                   ''?per_page=100&order=desc&page='' @ py_str_int page, 3))
             [next_page fr2..last]))"
proof (intro conjI impI)
  assume "gen_next c (generate_groups_for_version c app ver) fr log = Some (s, fr', log')"
  from gen_next_requests[OF this]
  show "\<exists>last. log' = log @
         map (\<lambda>page.
                (api_base_url c @ ''/'' @ app @ ''/app_versions/'' @ py_str_int ver @
                   ''/crash_reasons?per_page=100&order=desc&page='' @ py_str_int page, 3))
             [next_page fr..last]"
    by (simp add: requests_of_pages_def generate_groups_for_version_def)
next
  assume "gen_next c (generate_in_group c app ver grp) fr2 log2 = Some (s2, fr2', log2')"
  from gen_next_requests[OF this]
  show "\<exists>last. log2' = log2 @
         map (\<lambda>page.
                (api_base_url c @ ''/'' @ app @ ''/app_versions/'' @ py_str_int ver @
                   ''/crash_reasons/'' @ py_str_int grp @
                   ''?per_page=100&order=desc&page='' @ py_str_int page, 3))
             [next_page fr2..last]"
    by (simp add: requests_of_pages_def generate_in_group_def)
qed

lemma two_page_first_pull:
  "gen_next two_page_client (generate_groups_for_version two_page_client ''app'' 7) (Start 1) [] =
     Some (Yield (example_group 1 (Some ''boom'') None),
           Yielding 0 [example_group 2 None (Some ''run'')] 2 1,
           [(''https://rink.hockeyapp.net/api/2/apps/app/app_versions/7/crash_reasons?per_page=100&order=desc&page=1'', 3)])"
  by (simp add: gen_next_Enter budgets two_page_results gen_next_Cons two_page_urls)

lemma in_group_first_pull:
  "gen_next two_page_client (generate_in_group two_page_client ''app'' 7 1) (Start 1) [] =
     Some (Yield (example_instance 11), Yielding 0 [] 1 1,
           [(''https://rink.hockeyapp.net/api/2/apps/app/app_versions/7/crash_reasons/1?per_page=100&order=desc&page=1'', 3)])"
  by (simp add: gen_next_Enter budgets in_group_results gen_next_Cons in_group_urls)

theorem request_urls_witness:
  "gen_next two_page_client (generate_groups_for_version two_page_client ''app'' 7) (Start 1) [] =
     Some (Yield (example_group 1 (Some ''boom'') None),
           Yielding 0 [example_group 2 None (Some ''run'')] 2 1,
           [(''https://rink.hockeyapp.net/api/2/apps/app/app_versions/7/crash_reasons?per_page=100&order=desc&page=1'', 3)]) \<and>
   (\<exists>last.
      [(''https://rink.hockeyapp.net/api/2/apps/app/app_versions/7/crash_reasons?per_page=100&order=desc&page=1'', 3)] =
      [] @ map (\<lambda>page.
                (api_base_url two_page_client @ ''/'' @ ''app'' @ ''/app_versions/'' @ py_str_int 7 @
                   ''/crash_reasons?per_page=100&order=desc&page='' @ py_str_int page, 3::nat))
             [next_page (Start 1 :: HockeyCrashGroup frame)..last]) \<and>
   gen_next two_page_client (generate_in_group two_page_client ''app'' 7 1) (Start 1) [] =
     Some (Yield (example_instance 11), Yielding 0 [] 1 1,
           [(''https://rink.hockeyapp.net/api/2/apps/app/app_versions/7/crash_reasons/1?per_page=100&order=desc&page=1'', 3)]) \<and>
   (\<exists>last.
      [(''https://rink.hockeyapp.net/api/2/apps/app/app_versions/7/crash_reasons/1?per_page=100&order=desc&page=1'', 3)] =
      [] @ map (\<lambda>page.
                (api_base_url two_page_client @ ''/'' @ ''app'' @ ''/app_versions/'' @ py_str_int 7 @
                   ''/crash_reasons/'' @ py_str_int 1 @
                   ''?per_page=100&order=desc&page='' @ py_str_int page, 3::nat))
             [next_page (Start 1 :: HockeyCrashInstance frame)..last])"
  using request_urls
          [of two_page_client "''app''" 7 "Start 1" "[]"
              "Yield (example_group 1 (Some ''boom'') None)"
              "Yielding 0 [example_group 2 None (Some ''run'')] 2 1"
              "[(''https://rink.hockeyapp.net/api/2/apps/app/app_versions/7/crash_reasons?per_page=100&order=desc&page=1'', 3)]"
              1 "Start 1" "[]" "Yield (example_instance 11)" "Yielding 0 [] 1 1"
              "[(''https://rink.hockeyapp.net/api/2/apps/app/app_versions/7/crash_reasons/1?per_page=100&order=desc&page=1'', 3)]"]
        two_page_first_pull in_group_first_pull
  by blast

text \<open>
  C3, at \<open>max_count = 0\<close> on the two-page fixture. The first zero items of the lazy
  sequence are no items, taken without any call of \<open>get\<close>. \<open>groups_for_version\<close>
  fetches page 1 and returns its first group: the loop appends before it tests
  \<open>max_count\<close>.
\<close>

theorem groups_for_version_max_count_zero:
  "groups_for_version two_page_client ''app'' 7 (Some 0) [] =
     Some (Inr [example_group 1 (Some ''boom'') None],
           [(''https://rink.hockeyapp.net/api/2/apps/app/app_versions/7/crash_reasons?per_page=100&order=desc&page=1'', 3)]) \<and>
   take_items two_page_client (generate_groups_for_version two_page_client ''app'' 7) 0 (Start 1) [] =
     Some (Inr [], [])"
  by (simp add: groups_for_version_def groups_for_version_loop_max_count two_page_first_pull)

text \<open>
  With \<open>max_count = k\<close> for \<open>k\<close> from 1 on, \<open>groups_for_version\<close> returns the first
  \<open>k\<close> items of the lazy sequence and makes the calls of \<open>get\<close> of a consumer that pulls
  \<open>k\<close> items and no more.
\<close>

lemma groups_for_version_max_count_positive:
  "1 \<le> k \<Longrightarrow>
   groups_for_version c app ver (Some k) log =
     take_items c (generate_groups_for_version c app ver) (nat k) (Start 1) log"
  by (simp add: groups_for_version_def groups_for_version_loop_max_count max_def)

section \<open>Decoding: proofs\<close>

lemma key_for_renamed:
  "key_for HockeyCrashGroup_keys ''identifier'' = ''id''"
  "key_for HockeyCrashGroup_keys ''crash_method'' = ''method''"
  "key_for HockeyCrashGroup_keys ''crash_file'' = ''file''"
  "key_for HockeyCrashGroup_keys ''crash_class'' = ''class''"
  "key_for HockeyCrashGroup_keys ''crash_line'' = ''line''"
  by (simp_all add: key_for_def HockeyCrashGroup_keys_def)

lemma example_raw_decodes:
  "\<exists>g. deserialize_HockeyCrashGroup example_raw = Some g"
  "\<exists>g. deserialize_HockeyCrashGroup example_raw_null = Some g"
  by (simp_all add: deserialize_HockeyCrashGroup_def raw_value_def key_for_def
        HockeyCrashGroup_keys_def example_raw_def example_raw_null_def)

lemma as_int_value: "as_int (Some v) = Some i \<Longrightarrow> v = JInt i"
  by (cases v) simp_all

lemma as_optional_str_value: "as_optional_str (Some v) = Some p \<Longrightarrow> v = json_of_optional_str p"
  by (cases v) auto

lemma decoded_fields:
  assumes "deserialize_HockeyCrashGroup raw = Some g"
  shows "as_int (map_of raw ''id'') = Some (HockeyCrashGroup.identifier g)"
    and "as_optional_str (map_of raw ''method'') = Some (crash_method g)"
    and "as_optional_str (map_of raw ''file'') = Some (crash_file g)"
    and "as_optional_str (map_of raw ''class'') = Some (crash_class g)"
    and "as_optional_str (map_of raw ''line'') = Some (crash_line g)"
  using assms
  by (auto simp: deserialize_HockeyCrashGroup_def raw_value_def key_for_renamed bind_eq_Some_conv)

text \<open>
  C8. A raw record that carries the keys \<open>id\<close>, \<open>method\<close>, \<open>file\<close>, \<open>class\<close> and
  \<open>line\<close>, with whatever values, and decodes into a crash group gives a group whose
  \<open>identifier\<close>, \<open>crash_method\<close>, \<open>crash_file\<close>, \<open>crash_class\<close> and \<open>crash_line\<close> are
  the values under these keys: the integer under \<open>id\<close>, and under each of the other four
  the string, or \<open>None\<close> for \<open>null\<close>.
\<close>

theorem decode_field_rename:
  assumes "deserialize_HockeyCrashGroup raw = Some g"
    and "map_of raw ''id'' = Some v_id"
    and "map_of raw ''method'' = Some v_method"
    and "map_of raw ''file'' = Some v_file"
    and "map_of raw ''class'' = Some v_class"
    and "map_of raw ''line'' = Some v_line"
  shows "v_id = JInt (HockeyCrashGroup.identifier g) \<and>
         v_method = json_of_optional_str (crash_method g) \<and>
         v_file = json_of_optional_str (crash_file g) \<and>
         v_class = json_of_optional_str (crash_class g) \<and>
         v_line = json_of_optional_str (crash_line g)"
  using decoded_fields[OF assms(1)] assms(2-6)
  by (simp add: as_int_value as_optional_str_value)

theorem decode_field_rename_witness:
  "(\<exists>g. deserialize_HockeyCrashGroup example_raw = Some g \<and>
       HockeyCrashGroup.identifier g = 42 \<and> crash_method g = Some ''viewDidLoad'' \<and>
       crash_file g = Some ''Main.m'' \<and> crash_class g = Some ''MainController'' \<and>
       crash_line g = Some ''12'') \<and>
   (\<exists>g. deserialize_HockeyCrashGroup example_raw_null = Some g \<and>
       HockeyCrashGroup.identifier g = 43 \<and> crash_method g = None \<and>
       crash_file g = None \<and> crash_class g = None \<and> crash_line g = None)"
proof
  from example_raw_decodes(1) obtain g where g: "deserialize_HockeyCrashGroup example_raw = Some g" ..
  have a: "map_of example_raw ''id'' = Some (JInt 42)" by (simp add: example_raw_def)
  have b: "map_of example_raw ''method'' = Some (JStr ''viewDidLoad'')" by (simp add: example_raw_def)
  have c: "map_of example_raw ''file'' = Some (JStr ''Main.m'')" by (simp add: example_raw_def)
  have d: "map_of example_raw ''class'' = Some (JStr ''MainController'')" by (simp add: example_raw_def)
  have e: "map_of example_raw ''line'' = Some (JStr ''12'')" by (simp add: example_raw_def)
  have opt: "JStr s = json_of_optional_str p \<Longrightarrow> p = Some s" for s p by (cases p) simp_all
  from decode_field_rename[OF g a b c d e] g
  show "\<exists>g. deserialize_HockeyCrashGroup example_raw = Some g \<and>
       HockeyCrashGroup.identifier g = 42 \<and> crash_method g = Some ''viewDidLoad'' \<and>
       crash_file g = Some ''Main.m'' \<and> crash_class g = Some ''MainController'' \<and>
       crash_line g = Some ''12''"
    by (auto dest: opt)
next
  from example_raw_decodes(2) obtain g where g: "deserialize_HockeyCrashGroup example_raw_null = Some g" ..
  have a: "map_of example_raw_null ''id'' = Some (JInt 43)" by (simp add: example_raw_null_def)
  have b: "map_of example_raw_null ''method'' = Some JNull" by (simp add: example_raw_null_def)
  have c: "map_of example_raw_null ''file'' = Some JNull" by (simp add: example_raw_null_def)
  have d: "map_of example_raw_null ''class'' = Some JNull" by (simp add: example_raw_null_def)
  have e: "map_of example_raw_null ''line'' = Some JNull" by (simp add: example_raw_null_def)
  have opt: "JNull = json_of_optional_str p \<Longrightarrow> p = None" for p by (cases p) simp_all
  from decode_field_rename[OF g a b c d e] g
  show "\<exists>g. deserialize_HockeyCrashGroup example_raw_null = Some g \<and>
       HockeyCrashGroup.identifier g = 43 \<and> crash_method g = None \<and>
       crash_file g = None \<and> crash_class g = None \<and> crash_line g = None"
    by (auto dest: opt)
qed

end
